theory Spec2Isabelle
  imports Main "HOL-Library.AList"
begin

section \<open>Program model of \<open>paddle.distributed.passes.pass_utils\<close>\<close>

text \<open>
  The passes work on the static-graph objects of \<open>paddle.base.framework\<close>: a program is a
  list of blocks, block 0 being the global block; a block holds its operators in
  execution order and its variable declarations keyed by name; an operator has a type,
  named input and output slots (each a list of variable names), an attribute map and the
  distributed attributes used for stream assignment.
\<close>

datatype py_error =
    AssertionError string
  | KeyError string
  | IndexError
  | TypeError
  | ValueError string
  | RuntimeError string
  | Exception string

datatype attr_value = AInt int | ABool bool | AStr string

record dist_attr =
  execution_stream :: string
  stream_priority :: int
  force_record_event :: bool
  event_to_record :: string
  events_to_wait :: "string list"

record operator =
  op_type :: string
  op_inputs :: "(string \<times> string list) list"
  op_outputs :: "(string \<times> string list) list"
  op_attrs :: "(string \<times> attr_value) list"
  op_dist_attr :: dist_attr

text \<open>\<open>op.input_names\<close>, \<open>op.input(slot)\<close>, \<open>op.input_arg_names\<close> and their output twins.\<close>

definition input_names :: "operator \<Rightarrow> string list" where
  "input_names op = map fst (op_inputs op)"

definition output_names :: "operator \<Rightarrow> string list" where
  "output_names op = map fst (op_outputs op)"

definition op_input :: "operator \<Rightarrow> string \<Rightarrow> string list" where
  "op_input op slot = (case map_of (op_inputs op) slot of Some ns \<Rightarrow> ns | None \<Rightarrow> [])"

definition op_output :: "operator \<Rightarrow> string \<Rightarrow> string list" where
  "op_output op slot = (case map_of (op_outputs op) slot of Some ns \<Rightarrow> ns | None \<Rightarrow> [])"

definition input_arg_names :: "operator \<Rightarrow> string list" where
  "input_arg_names op = concat (map snd (op_inputs op))"

definition output_arg_names :: "operator \<Rightarrow> string list" where
  "output_arg_names op = concat (map snd (op_outputs op))"

datatype var_type =
    LOD_TENSOR
  | SELECTED_ROWS
  | READER
  | STEP_SCOPES
  | LOD_TENSOR_ARRAY
  | FEED_MINIBATCH
  | FETCH_LIST

text \<open>The training metadata a \<open>Parameter\<close> carries on top of a variable.\<close>

record param_info =
  trainable :: bool
  optimize_attr :: string
  regularizer :: string
  do_model_average :: bool
  need_clip :: bool

record variable =
  var_name :: string
  var_type :: var_type
  var_shape :: "int list option"
  var_dtype :: "string option"
  var_lod_level :: "nat option"
  var_persistable :: bool
  var_error_clip :: string
  var_stop_gradient :: bool
  var_is_data :: bool
  var_belong_to_optimizer :: bool
  var_param :: "param_info option"

record block =
  blk_ops :: "operator list"
  blk_vars :: "(string \<times> variable) list"
  blk_parent_idx :: int
  blk_forward_block_idx :: int

text \<open>
  A program always has its global block; \<open>program.blocks\<close> is the global block followed by
  the blocks of control-flow bodies.
\<close>

record program =
  global_block :: block
  sub_blocks :: "block list"

definition blocks :: "program \<Rightarrow> block list" where
  "blocks p = global_block p # sub_blocks p"

section \<open>\<open>OpInOutInfo\<close>\<close>

record op_in_out_info =
  is_build :: bool
  no_need_buffer_slots :: "string set"
  other_arg_names_set :: "string set"

text \<open>\<open>OpInOutInfo.__init__\<close>\<close>

definition OpInOutInfo_init :: op_in_out_info where
  "OpInOutInfo_init =
     \<lparr>is_build = False, no_need_buffer_slots = {}, other_arg_names_set = {}\<rparr>"

text \<open>
  \<open>core.infer_no_need_buffer_slots(op.type, inputs, outputs, attrs)\<close> is the registry of
  the C++ core: it is a parameter \<open>infer\<close> of the model, a function of what
  \<open>_get_op_attrs\<close> collects from the operator.
\<close>

type_synonym no_need_buffer_registry =
  "string \<Rightarrow> (string \<times> string list) list \<Rightarrow> (string \<times> string list) list
     \<Rightarrow> (string \<times> attr_value) list \<Rightarrow> string set"

definition get_op_attrs ::
  "operator \<Rightarrow> (string \<times> string list) list \<times> (string \<times> string list) list
     \<times> (string \<times> attr_value) list" where
  "get_op_attrs op =
     (map (\<lambda>n. (n, op_input op n)) (input_names op),
      map (\<lambda>n. (n, op_output op n)) (output_names op),
      op_attrs op)"

text \<open>The two loops of \<open>build_info\<close> that fill \<open>_other_arg_names_set\<close>.\<close>

fun add_slot_names ::
  "string set \<Rightarrow> (string \<Rightarrow> string list) \<Rightarrow> string list \<Rightarrow> string set \<Rightarrow> string set" where
  "add_slot_names nnb args [] acc = acc"
| "add_slot_names nnb args (slot # slots) acc =
     add_slot_names nnb args slots
       (if slot \<notin> nnb then acc \<union> set (args slot) else acc)"

definition build_info :: "no_need_buffer_registry \<Rightarrow> op_in_out_info \<Rightarrow> operator \<Rightarrow> op_in_out_info" where
  "build_info infer info op =
     (case get_op_attrs op of (inputs, outputs, attrs) \<Rightarrow>
        let info1 = info\<lparr>no_need_buffer_slots := infer (op_type op) inputs outputs attrs\<rparr> in
        if no_need_buffer_slots info1 = {} then info1
        else
          let s1 = add_slot_names (no_need_buffer_slots info1) (op_input op)
                     (input_names op) (other_arg_names_set info1);
              s2 = add_slot_names (no_need_buffer_slots info1) (op_output op)
                     (output_names op) s1
          in info1\<lparr>other_arg_names_set := s2, is_build := True\<rparr>)"

definition is_needed :: "op_in_out_info \<Rightarrow> string \<Rightarrow> bool" where
  "is_needed info arg_name =
     (no_need_buffer_slots info = {} \<or> arg_name \<in> other_arg_names_set info)"

section \<open>Cross-stage liveness: \<open>set_skip_gc_vars\<close>\<close>

text \<open>
  Modelled from the spec: \<open>Block._find_var_recursive\<close> of \<open>paddle.base.framework\<close> is
  not among the sources. The lookup tries the block's own declarations and then walks
  the chain of parent blocks (\<open>parent_idx\<close>, \<open>-1\<close> at the root) of the block's program.
  The fuel is the number of blocks of the program: a chain that is longer repeats a block
  and finds nothing new.
\<close>

fun find_var_fuel :: "nat \<Rightarrow> block list \<Rightarrow> block \<Rightarrow> string \<Rightarrow> variable option" where
  "find_var_fuel 0 bs b name = None"
| "find_var_fuel (Suc k) bs b name =
     (case map_of (blk_vars b) name of
        Some v \<Rightarrow> Some v
      | None \<Rightarrow>
          if 0 \<le> blk_parent_idx b \<and> nat (blk_parent_idx b) < length bs
          then find_var_fuel k bs (bs ! nat (blk_parent_idx b)) name
          else None)"

definition find_var_recursive :: "program \<Rightarrow> block \<Rightarrow> string \<Rightarrow> variable option" where
  "find_var_recursive p b name = find_var_fuel (length (blocks p)) (blocks p) b name"

definition var_can_be_deleted :: "program \<Rightarrow> string \<Rightarrow> block \<Rightarrow> bool" where
  "var_can_be_deleted p name b =
     (case find_var_recursive p b name of
        None \<Rightarrow> False
      | Some v \<Rightarrow> \<not> var_persistable v)"

text \<open>
  Step 1 of \<open>set_skip_gc_vars\<close>: the variables of a sub-program that are not persistable
  and are needed by the operator that names them. The loops over the blocks and the
  operators add to one set per job type.
\<close>

definition skipped_op_types :: "string list" where
  "skipped_op_types = [''c_sync_comm_stream'', ''conditional_block'', ''nop'', ''while'']"

definition required_vars_of_op ::
  "no_need_buffer_registry \<Rightarrow> program \<Rightarrow> block \<Rightarrow> operator \<Rightarrow> string set \<Rightarrow> string set" where
  "required_vars_of_op infer p b op acc =
     (if op_type op \<in> set skipped_op_types then acc
      else
        let op_info = build_info infer OpInOutInfo_init op in
        fold (\<lambda>arg_name acc'.
                if var_can_be_deleted p arg_name b \<and> is_needed op_info arg_name
                then insert arg_name acc' else acc')
             (input_arg_names op @ output_arg_names op) acc)"

definition required_vars_of_program ::
  "no_need_buffer_registry \<Rightarrow> program \<Rightarrow> string set" where
  "required_vars_of_program infer p =
     fold (\<lambda>b acc. fold (required_vars_of_op infer p b) (blk_ops b) acc) (blocks p) {}"

text \<open>
  \<open>type_to_program = dict(zip(job_types, sub_programs))\<close>: a later pair with the same
  type replaces an earlier one. \<open>type_to_required_vars\<close> has the same keys.
\<close>

definition type_to_program :: "string list \<Rightarrow> program list \<Rightarrow> string \<Rightarrow> program option" where
  "type_to_program job_types sub_programs = map_of (rev (zip job_types sub_programs))"

definition type_to_required_vars ::
  "no_need_buffer_registry \<Rightarrow> string list \<Rightarrow> program list \<Rightarrow> string \<Rightarrow> string set option" where
  "type_to_required_vars infer job_types sub_programs t =
     map_option (required_vars_of_program infer) (type_to_program job_types sub_programs t)"

text \<open>A job instance of \<open>core.Job\<close>: its type, its micro-batch and the set this pass fills.\<close>

record job =
  job_type :: string
  micro_batch_id :: int
  skip_gc_vars :: "string set"

text \<open>Python list indexing: a negative index counts from the end, out of range raises.\<close>

definition py_index :: "nat \<Rightarrow> int \<Rightarrow> nat option" where
  "py_index n i =
     (if 0 \<le> i \<and> i < int n then Some (nat i)
      else if - int n \<le> i \<and> i < 0 then Some (nat (i + int n))
      else None)"

text \<open>
  One iteration of the loop of step 2, for one job and the accumulators
  \<open>suffixed_required_vars\<close>.
\<close>

definition skip_gc_step ::
  "(string \<Rightarrow> string set option) \<Rightarrow> job \<Rightarrow> string set list \<Rightarrow> py_error + (job \<times> string set list)" where
  "skip_gc_step req j suffixed =
     (case req (job_type j) of
        None \<Rightarrow> Inl (KeyError (job_type j))
      | Some required_vars \<Rightarrow>
          (case py_index (length suffixed) (micro_batch_id j) of
             None \<Rightarrow> Inl IndexError
           | Some m \<Rightarrow>
               let skip = required_vars \<inter> suffixed ! m in
               if job_type j = ''backward'' \<and> skip \<noteq> {}
               then Inl (AssertionError ''the skip_gc_vars for backward subprogram must be empty'')
               else Inr (j\<lparr>skip_gc_vars := skip\<rparr>,
                         suffixed[m := suffixed ! m \<union> required_vars])))"

text \<open>
  The loop runs over \<open>reversed(range(num_jobs))\<close>: the jobs behind a job are processed
  before it, and an exception ends the loop.
\<close>

fun skip_gc_loop ::
  "(string \<Rightarrow> string set option) \<Rightarrow> job list \<Rightarrow> string set list
     \<Rightarrow> py_error + (job list \<times> string set list)" where
  "skip_gc_loop req [] suffixed = Inr ([], suffixed)"
| "skip_gc_loop req (j # js) suffixed =
     (case skip_gc_loop req js suffixed of
        Inl e \<Rightarrow> Inl e
      | Inr (js', suffixed') \<Rightarrow>
          (case skip_gc_step req j suffixed' of
             Inl e \<Rightarrow> Inl e
           | Inr (j', suffixed'') \<Rightarrow> Inr (j' # js', suffixed'')))"

text \<open>
  \<open>set_skip_gc_vars\<close> as far as the jobs go: the result is the list of jobs with their
  \<open>skip_gc_vars\<close> set. (The function returns \<open>type_to_program\<close>; the rewriting of the
  sub-programs under \<open>FLAGS_enable_pir_in_executor\<close> comes after the jobs are set and does
  not touch them.)
\<close>

definition set_skip_gc_vars ::
  "no_need_buffer_registry \<Rightarrow> int \<Rightarrow> string list \<Rightarrow> program list \<Rightarrow> job list
     \<Rightarrow> py_error + job list" where
  "set_skip_gc_vars infer num_micro_batches job_types sub_programs jobs =
     (if \<not> num_micro_batches \<ge> 1
      then Inl (AssertionError ''num_micro_batches needs to be >= 1'')
      else
        (case skip_gc_loop (type_to_required_vars infer job_types sub_programs) jobs
                (replicate (nat num_micro_batches) {}) of
           Inl e \<Rightarrow> Inl e
         | Inr (jobs', suffixed) \<Rightarrow> Inr jobs'))"

text \<open>
  The closed form of the spec: the required variables of the later instances that use
  the same accumulator as instance \<open>i\<close>.
\<close>

definition required_of :: "(string \<Rightarrow> string set option) \<Rightarrow> string \<Rightarrow> string set" where
  "required_of req t = (case req t of Some s \<Rightarrow> s | None \<Rightarrow> {})"

definition suffix_required ::
  "(string \<Rightarrow> string set option) \<Rightarrow> nat \<Rightarrow> job list \<Rightarrow> nat \<Rightarrow> string set" where
  "suffix_required req n js m =
     \<Union> (set (map (\<lambda>j. required_of req (job_type j))
               (filter (\<lambda>j. py_index n (micro_batch_id j) = Some m) js)))"

section \<open>Graph slicer: \<open>prune_program\<close> and \<open>split_program\<close>\<close>

text \<open>
  An \<open>OrderedDict\<close> whose values are all \<open>True\<close> is the list of its keys in insertion
  order; storing a key that is present keeps its place.
\<close>

definition dict_add :: "string \<Rightarrow> string list \<Rightarrow> string list" where
  "dict_add k d = (if k \<in> set d then d else d @ [k])"

fun list_to_ordered_dict :: "string list \<Rightarrow> string list \<Rightarrow> string list" where
  "list_to_ordered_dict [] d = d"
| "list_to_ordered_dict (obj # objs) d = list_to_ordered_dict objs (dict_add obj d)"

definition global_ops :: "program \<Rightarrow> operator list" where
  "global_ops p = blk_ops (global_block p)"

text \<open>
  \<open>get_inputs_of_program\<close>: the state of the loop is \<open>visited_vars\<close> and \<open>input_vars\<close>.
\<close>

definition visit_inputs :: "string list \<Rightarrow> string set \<times> string list \<Rightarrow> string set \<times> string list" where
  "visit_inputs names st =
     fold (\<lambda>in_var_name (visited, input_vars).
             if in_var_name \<notin> visited
             then (insert in_var_name visited, input_vars @ [in_var_name])
             else (visited, input_vars))
          names st"

definition visit_op :: "operator \<Rightarrow> string set \<times> string list \<Rightarrow> string set \<times> string list" where
  "visit_op op st =
     (case visit_inputs (input_arg_names op) st of
        (visited, input_vars) \<Rightarrow> (visited \<union> set (output_arg_names op), input_vars))"

definition get_inputs_of_program :: "program \<Rightarrow> string list" where
  "get_inputs_of_program p = snd (fold visit_op (global_ops p) ({}, []))"

definition get_outputs_of_program :: "program \<Rightarrow> string list" where
  "get_outputs_of_program p =
     fold (\<lambda>op output_vars. list_to_ordered_dict (output_arg_names op) output_vars)
          (global_ops p) []"

text \<open>\<open>Block._remove_op(idx)\<close> and \<open>Block._remove_var(name)\<close>.\<close>

definition remove_op :: "nat \<Rightarrow> operator list \<Rightarrow> operator list" where
  "remove_op idx ops = take idx ops @ drop (Suc idx) ops"

definition remove_var :: "string \<Rightarrow> (string \<times> variable) list \<Rightarrow> (string \<times> variable) list" where
  "remove_var name vars = AList.delete name vars"

text \<open>The names the operators of a block mention: \<open>valid_vars\<close> of \<open>prune_program\<close>.\<close>

definition valid_vars_of :: "operator list \<Rightarrow> string set" where
  "valid_vars_of ops =
     fold (\<lambda>op valid. valid \<union> set (input_arg_names op) \<union> set (output_arg_names op)) ops {}"

text \<open>
  \<open>prune_program\<close>: the indices are resolved and asserted, the operators behind
  \<open>end_op_idx\<close> and before \<open>start_op_idx\<close> are removed from a clone, highest index first,
  and the declarations of the global block that no remaining operator names are removed.
\<close>

definition prune_program :: "program \<Rightarrow> int \<Rightarrow> int \<Rightarrow> py_error + program" where
  "prune_program p start_op_idx end_op_idx =
     (let op_num = int (length (global_ops p));
          start_idx = (if start_op_idx < 0 then start_op_idx + op_num else start_op_idx);
          end_idx = (if end_op_idx < 0 then end_op_idx + op_num else end_op_idx)
      in if \<not> (start_idx \<ge> 0 \<and> start_idx < op_num) then Inl (AssertionError [])
         else if \<not> (end_idx \<ge> 0 \<and> end_idx \<le> op_num) then Inl (AssertionError [])
         else if \<not> start_idx < end_idx then Inl (AssertionError [])
         else
           let ops1 = fold remove_op (rev [nat end_idx ..< nat op_num]) (global_ops p);
               ops2 = fold remove_op (rev [0 ..< nat start_idx]) ops1;
               valid_vars = valid_vars_of ops2;
               vars_to_remove =
                 filter (\<lambda>var. var \<notin> valid_vars) (map fst (blk_vars (global_block p)));
               vars2 = fold remove_var vars_to_remove (blk_vars (global_block p))
           in Inr (p\<lparr>global_block := (global_block p)\<lparr>blk_ops := ops2, blk_vars := vars2\<rparr>\<rparr>))"

text \<open>The normalisation of \<open>op_indices\<close> at the head of \<open>split_program\<close>.\<close>

definition normalize_indices :: "int \<Rightarrow> int list \<Rightarrow> int list" where
  "normalize_indices op_num op_indices =
     (let l1 = map (\<lambda>idx. if idx \<ge> 0 then idx else idx + op_num) op_indices;
          l2 = (if hd l1 \<noteq> 0 then [0] @ l1 else l1);
          l3 = (if last l2 \<noteq> op_num then l2 @ [op_num] else l2)
      in l3)"

text \<open>The loop of assertions over neighbouring indices.\<close>

fun strictly_sorted :: "int list \<Rightarrow> bool" where
  "strictly_sorted (a # b # rest) = (a < b \<and> strictly_sorted (b # rest))"
| "strictly_sorted _ = True"

text \<open>The loop that prunes one sub-program per pair of neighbouring indices.\<close>

fun prune_all :: "program \<Rightarrow> int list \<Rightarrow> py_error + program list" where
  "prune_all p (a # b # rest) =
     (case prune_program p a b of
        Inl e \<Rightarrow> Inl e
      | Inr new_split \<Rightarrow>
          (case prune_all p (b # rest) of
             Inl e \<Rightarrow> Inl e
           | Inr splits \<Rightarrow> Inr (new_split # splits)))"
| "prune_all p _ = Inr []"

text \<open>
  The second pass of \<open>split_program\<close>. For the input name \<open>in_var_name\<close> of sub-program
  \<open>i\<close> the inner loop runs \<open>j\<close> over \<open>reversed(range(i))\<close> and stops at the first \<open>j\<close>
  whose outputs have the name, storing it in \<open>valid_output_vars[j]\<close>.
\<close>

definition attribute_input ::
  "string list list \<Rightarrow> nat \<Rightarrow> string \<Rightarrow> string list list \<Rightarrow> string list list" where
  "attribute_input output_vars i in_var_name valid_output_vars =
     (case find (\<lambda>j. in_var_name \<in> set (output_vars ! j)) (rev [0 ..< i]) of
        None \<Rightarrow> valid_output_vars
      | Some j \<Rightarrow> valid_output_vars[j := dict_add in_var_name (valid_output_vars ! j)])"

definition valid_outputs ::
  "string list list \<Rightarrow> string list list \<Rightarrow> string list list" where
  "valid_outputs input_vars output_vars =
     (let num_split = length output_vars;
          init = (replicate num_split [])[num_split - 1 := output_vars ! (num_split - 1)]
      in fold (\<lambda>i valid. fold (attribute_input output_vars i) (input_vars ! i) valid)
              [1 ..< num_split] init)"

text \<open>
  \<open>split_program\<close>. The last entry of \<open>valid_output_vars\<close> is the very dictionary
  \<open>output_vars[-1]\<close>; the second pass neither reads nor writes it, since \<open>j\<close> stays below
  \<open>i\<close> and \<open>i\<close> below \<open>num_split\<close>.
\<close>

definition split_program ::
  "program \<Rightarrow> int list \<Rightarrow> py_error + (program list \<times> string list list \<times> string list list)" where
  "split_program p op_indices =
     (if op_indices = [] then Inl (AssertionError ''op_indices cannot be empty'')
      else
        let op_num = int (length (global_ops p)) in
        if \<not> op_num > 0 then Inl (AssertionError ''program cannot be empty'')
        else
          let indices = normalize_indices op_num op_indices in
          if \<not> strictly_sorted indices
          then Inl (AssertionError ''op_indices must be strictly sorted'')
          else
            (case prune_all p indices of
               Inl e \<Rightarrow> Inl e
             | Inr splitted_programs \<Rightarrow>
                 let input_vars = map get_inputs_of_program splitted_programs;
                     output_vars =
                       map (\<lambda>q. list_to_ordered_dict (get_outputs_of_program q) [])
                           splitted_programs
                 in Inr (splitted_programs, input_vars, valid_outputs input_vars output_vars)))"

text \<open>The names that a list of operators mentions, as a union.\<close>

definition arg_names_of :: "operator list \<Rightarrow> string set" where
  "arg_names_of ops = (\<Union>op \<in> set ops. set (input_arg_names op) \<union> set (output_arg_names op))"

text \<open>
  The spec's words for an input name of a sub-program: the name is read by some operator
  before any operator of the same sub-program writes it.
\<close>

fun first_use_is_read :: "string \<Rightarrow> operator list \<Rightarrow> bool" where
  "first_use_is_read x [] = False"
| "first_use_is_read x (op # ops) =
     (x \<in> set (input_arg_names op) \<or>
      (x \<notin> set (output_arg_names op) \<and> first_use_is_read x ops))"

text \<open>The names that the operators of a list write.\<close>

definition written_by :: "operator list \<Rightarrow> string set" where
  "written_by ops = (\<Union>op \<in> set ops. set (output_arg_names op))"

text \<open>
  Sub-program \<open>j\<close> is the nearest sub-program before \<open>i\<close> whose outputs have the name.
\<close>

definition nearest_writer :: "string list list \<Rightarrow> nat \<Rightarrow> string \<Rightarrow> nat \<Rightarrow> bool" where
  "nearest_writer outs i x j \<longleftrightarrow>
     j < i \<and> x \<in> set (outs ! j) \<and> (\<forall>k. j < k \<and> k < i \<longrightarrow> x \<notin> set (outs ! k))"

section \<open>Sub-program re-materializer: \<open>_create_program\<close>\<close>

definition not_shape_var_type :: "var_type list" where
  "not_shape_var_type = [READER, STEP_SCOPES, LOD_TENSOR_ARRAY, FEED_MINIBATCH, FETCH_LIST]"

text \<open>
  Modelled from the spec: \<open>Block.create_var\<close> and the constructors \<open>Variable\<close> and
  \<open>Parameter\<close> of \<open>paddle.base.framework\<close> are not among the sources. The declarations of
  a block are keyed by name. Declaring a name that the block does not have adds the
  declaration at the end. Declaring a name that the block has is accepted only when the
  new declaration agrees with the present one: the kind and the persistable flag are
  the same, and each of shape, data type and LoD level that the new declaration gives is
  the one the block has; otherwise \<open>ValueError\<close> is raised and the block is left as it
  is. An accepted declaration of a present name keeps the kind, shape, data type, LoD
  level and persistable flag that the block has and takes the other fields from the new
  declaration.
\<close>

definition agrees :: "'a option \<Rightarrow> 'a option \<Rightarrow> bool" where
  "agrees new old = (case new of None \<Rightarrow> True | Some x \<Rightarrow> old = Some x)"

definition var_matches :: "variable \<Rightarrow> variable \<Rightarrow> bool" where
  "var_matches new old \<longleftrightarrow>
     var_type new = var_type old \<and> agrees (var_shape new) (var_shape old) \<and>
     agrees (var_dtype new) (var_dtype old) \<and>
     agrees (var_lod_level new) (var_lod_level old) \<and>
     var_persistable new = var_persistable old"

definition merge_var :: "variable \<Rightarrow> variable \<Rightarrow> variable" where
  "merge_var new old =
     new\<lparr>var_shape := var_shape old, var_dtype := var_dtype old,
         var_lod_level := var_lod_level old\<rparr>"

definition declare_var :: "variable \<Rightarrow> block \<Rightarrow> py_error + block" where
  "declare_var v b =
     (case map_of (blk_vars b) (var_name v) of
        None \<Rightarrow> Inr (b\<lparr>blk_vars := blk_vars b @ [(var_name v, v)]\<rparr>)
      | Some old \<Rightarrow>
          if var_matches v old
          then Inr (b\<lparr>blk_vars := AList.update (var_name v) (merge_var v old) (blk_vars b)\<rparr>)
          else Inl (ValueError (var_name v)))"

text \<open>
  Modelled from the spec: \<open>Block.has_var\<close>, \<open>Block.var\<close>, \<open>Block._var_recursive\<close> and
  the property \<open>Variable.lod_level\<close> are not among the sources. \<open>var\<close> and
  \<open>_var_recursive\<close> raise \<open>ValueError\<close> for a name that \<open>has_var\<close>, respectively
  \<open>_find_var_recursive\<close>, does not find. Reading \<open>lod_level\<close> of a variable of kind
  \<open>SELECTED_ROWS\<close> raises \<open>Exception\<close>.
\<close>

definition has_var :: "block \<Rightarrow> string \<Rightarrow> bool" where
  "has_var b name = (map_of (blk_vars b) name \<noteq> None)"

definition block_var :: "block \<Rightarrow> string \<Rightarrow> py_error + variable" where
  "block_var b name =
     (case map_of (blk_vars b) name of None \<Rightarrow> Inl (ValueError name) | Some v \<Rightarrow> Inr v)"

definition var_recursive :: "program \<Rightarrow> block \<Rightarrow> string \<Rightarrow> py_error + variable" where
  "var_recursive p b name =
     (case find_var_recursive p b name of None \<Rightarrow> Inl (ValueError name) | Some v \<Rightarrow> Inr v)"

definition lod_level :: "variable \<Rightarrow> py_error + nat option" where
  "lod_level v =
     (if var_type v = SELECTED_ROWS then Inl (Exception ''SelectedRows DO NOT support lod'')
      else Inr (var_lod_level v))"

text \<open>
  \<open>_create_param\<close>: the keyword arguments are the fields of the source parameter. A
  \<open>Parameter\<close> is given no \<open>persistable\<close>: it is persistable by construction. Its
  constructor raises \<open>ValueError\<close> for a missing shape, a missing data type and a
  negative dimension before it declares anything.
\<close>

definition create_param :: "block \<Rightarrow> variable \<Rightarrow> py_error + block" where
  "create_param dst_block src_var =
     (case lod_level src_var of
        Inl e \<Rightarrow> Inl e
      | Inr lod \<Rightarrow>
          (case var_shape src_var of
             None \<Rightarrow> Inl (ValueError ''The shape of Parameter should not be None'')
           | Some shape \<Rightarrow>
               if var_dtype src_var = None
               then Inl (ValueError ''The dtype of Parameter should not be None'')
               else if list_ex (\<lambda>each. each < 0) shape
               then Inl (ValueError ''Each dimension of shape for Parameter must be greater than 0'')
               else declare_var
                 \<lparr>var_name = var_name src_var, var_type = var_type src_var,
                  var_shape = Some shape, var_dtype = var_dtype src_var,
                  var_lod_level = lod, var_persistable = True,
                  var_error_clip = var_error_clip src_var,
                  var_stop_gradient = var_stop_gradient src_var,
                  var_is_data = var_is_data src_var,
                  var_belong_to_optimizer = var_belong_to_optimizer src_var,
                  var_param = var_param src_var\<rparr>
                 dst_block))"

definition create_inter :: "block \<Rightarrow> variable \<Rightarrow> py_error + block" where
  "create_inter dst_block src_var =
     (case lod_level src_var of
        Inl e \<Rightarrow> Inl e
      | Inr lod \<Rightarrow>
          declare_var
            \<lparr>var_name = var_name src_var, var_type = var_type src_var,
             var_shape = var_shape src_var, var_dtype = var_dtype src_var,
             var_lod_level = lod, var_persistable = var_persistable src_var,
             var_error_clip = var_error_clip src_var,
             var_stop_gradient = var_stop_gradient src_var,
             var_is_data = var_is_data src_var,
             var_belong_to_optimizer = var_belong_to_optimizer src_var,
             var_param = None\<rparr>
            dst_block)"

text \<open>
  \<open>_create_var\<close>. The program \<open>p\<close> is the one the source block belongs to; the
  recursive lookup walks its blocks. A variable of a kind without shape is declared by
  its kind only; a parameter (\<open>isinstance(src_var, Parameter)\<close>: it carries the training
  metadata) goes through \<open>_create_param\<close>, any other variable through \<open>_create_inter\<close>.
\<close>

definition create_var ::
  "program \<Rightarrow> block \<Rightarrow> block \<Rightarrow> string \<Rightarrow> bool \<Rightarrow> py_error + block" where
  "create_var p src_block dst_block src_varname force_create =
     (case (if \<not> force_create then block_var src_block src_varname
            else var_recursive p src_block src_varname) of
        Inl e \<Rightarrow> Inl e
      | Inr src_var \<Rightarrow>
          if var_type src_var \<in> set not_shape_var_type
          then declare_var
                 \<lparr>var_name = var_name src_var, var_type = var_type src_var,
                  var_shape = None, var_dtype = None, var_lod_level = None,
                  var_persistable = var_persistable src_var,
                  var_error_clip = var_error_clip src_var,
                  var_stop_gradient = var_stop_gradient src_var,
                  var_is_data = var_is_data src_var,
                  var_belong_to_optimizer = var_belong_to_optimizer src_var,
                  var_param = None\<rparr>
                 dst_block
          else if var_param src_var \<noteq> None then create_param dst_block src_var
          else create_inter dst_block src_var)"

text \<open>One of the two loops of \<open>_create_program\<close>, over the input or the output names.\<close>

fun create_vars ::
  "program \<Rightarrow> block \<Rightarrow> bool \<Rightarrow> string list \<Rightarrow> block \<Rightarrow> py_error + block" where
  "create_vars p src_block force_create [] dst_block = Inr dst_block"
| "create_vars p src_block force_create (varname # varnames) dst_block =
     (if has_var src_block varname \<or>
         (force_create \<and> find_var_recursive p src_block varname \<noteq> None)
      then (case create_var p src_block dst_block varname force_create of
              Inl e \<Rightarrow> Inl e
            | Inr dst_block' \<Rightarrow> create_vars p src_block force_create varnames dst_block')
      else create_vars p src_block force_create varnames dst_block)"

text \<open>
  \<open>_create_program\<close>: \<open>dst_block.desc.append_op()\<close> adds an operator at the end of the
  destination and \<open>copy_from\<close> makes it a copy of the source operator.
\<close>

definition create_program ::
  "program \<Rightarrow> block \<Rightarrow> block \<Rightarrow> operator \<Rightarrow> bool \<Rightarrow> py_error + block" where
  "create_program p src_block dst_block src_op force_create =
     (case create_vars p src_block force_create (input_arg_names src_op)
             (dst_block\<lparr>blk_ops := blk_ops dst_block @ [src_op]\<rparr>) of
        Inl e \<Rightarrow> Inl e
      | Inr dst_block1 \<Rightarrow>
          create_vars p src_block force_create (output_arg_names src_op) dst_block1)"





section \<open>Stream assignment: \<open>_overlap_send_recv\<close>\<close>

text \<open>
  Modelled from the spec: \<open>Operator._set_attr\<close> and \<open>Operator.attr\<close> of
  \<open>paddle.base.framework\<close> are not among the sources. \<open>_set_attr\<close> writes one entry of the
  attribute bag of the operator, \<open>attr\<close> reads one and raises for a name the bag does
  not have.
\<close>

definition set_attr :: "string \<Rightarrow> attr_value \<Rightarrow> operator \<Rightarrow> operator" where
  "set_attr name val op = op\<lparr>op_attrs := AList.update name val (op_attrs op)\<rparr>"

definition op_attr :: "operator \<Rightarrow> string \<Rightarrow> py_error + attr_value" where
  "op_attr op name =
     (case map_of (op_attrs op) name of None \<Rightarrow> Inl (RuntimeError name) | Some v \<Rightarrow> Inr v)"

text \<open>Python's \<open>str\<close> on the values of an attribute bag; an integer is written in decimal.\<close>

definition digit :: "nat \<Rightarrow> char" where
  "digit n = ''0123456789'' ! n"

fun str_nat :: "nat \<Rightarrow> string" where
  "str_nat n = (if n < 10 then [digit n] else str_nat (n div 10) @ [digit (n mod 10)])"

declare str_nat.simps [simp del]

definition str_int :: "int \<Rightarrow> string" where
  "str_int i = (if i < 0 then CHR ''-'' # str_nat (nat (- i)) else str_nat (nat i))"

fun py_str :: "attr_value \<Rightarrow> string" where
  "py_str (AInt i) = str_int i"
| "py_str (ABool b) = (if b then ''True'' else ''False'')"
| "py_str (AStr s) = s"

text \<open>A \<open>for\<close> loop over a list whose body may raise: the first error ends the loop.\<close>

fun for_each :: "('a \<Rightarrow> py_error + 'b) \<Rightarrow> 'a list \<Rightarrow> py_error + 'b list" where
  "for_each f [] = Inr []"
| "for_each f (x # xs) =
     (case f x of
        Inl e \<Rightarrow> Inl e
      | Inr y \<Rightarrow> (case for_each f xs of Inl e \<Rightarrow> Inl e | Inr ys \<Rightarrow> Inr (y # ys)))"

text \<open>The body of the inner loop of \<open>_overlap_send_recv\<close>, on one operator.\<close>

definition overlap_op :: "operator \<Rightarrow> py_error + operator" where
  "overlap_op op =
     (if op_type op = ''send_v2'' then
        (let op1 = set_attr ''dynamic_shape'' (ABool False) op;
             op2 = set_attr ''use_calc_stream'' (ABool True) op1
         in case op_attr op2 ''ring_id'' of
              Inl e \<Rightarrow> Inl e
            | Inr ring_id \<Rightarrow>
                Inr (op2\<lparr>op_dist_attr := (op_dist_attr op2)
                       \<lparr>execution_stream := ''send_stream_'' @ py_str ring_id,
                        stream_priority := 0\<rparr>\<rparr>))
      else if op_type op = ''recv_v2'' then
        (let op1 = set_attr ''dynamic_shape'' (ABool False) op;
             op2 = set_attr ''use_calc_stream'' (ABool True) op1
         in Inr (op2\<lparr>op_dist_attr := (op_dist_attr op2)
                   \<lparr>execution_stream := ''recv_stream'', stream_priority := 0\<rparr>\<rparr>))
      else Inr op)"

definition overlap_block :: "block \<Rightarrow> py_error + block" where
  "overlap_block b =
     (case for_each overlap_op (blk_ops b) of
        Inl e \<Rightarrow> Inl e
      | Inr ops \<Rightarrow> Inr (b\<lparr>blk_ops := ops\<rparr>))"

text \<open>
  \<open>_overlap_send_recv\<close> changes the program in place; the model returns the program as
  it is after the loops, or the error that ended them.
\<close>

definition overlap_send_recv :: "program \<Rightarrow> py_error + program" where
  "overlap_send_recv p =
     (case for_each overlap_block (blocks p) of
        Inl e \<Rightarrow> Inl e
      | Inr bs \<Rightarrow> Inr (p\<lparr>global_block := hd bs, sub_blocks := tl bs\<rparr>))"



section \<open>Barrier insertion: \<open>_insert_sync_for_fthenb_1f1b\<close>\<close>

text \<open>
  Modelled from the spec: the enumeration \<open>OpRole\<close> is not among the sources. Its
  values are the integers that the attribute \<open>op_role\<close> of an operator holds.
\<close>

definition OpRole_Forward :: int where
  "OpRole_Forward = 0"

definition OpRole_Backward :: int where
  "OpRole_Backward = 1"

definition OpRole_Optimize :: int where
  "OpRole_Optimize = 2"

text \<open>
  Python's \<open>int\<close> on the value of an attribute. The attribute \<open>op_role\<close> is an integer
  attribute; on a string that is no numeral \<open>int\<close> raises \<open>ValueError\<close>, and the model
  raises on every string.
\<close>

fun py_int :: "attr_value \<Rightarrow> py_error + int" where
  "py_int (AInt i) = Inr i"
| "py_int (ABool b) = Inr (if b then 1 else 0)"
| "py_int (AStr s) = Inl (ValueError s)"

text \<open>
  Modelled from the spec: \<open>Block._insert_op_without_sync\<close>, \<open>Block._remove_op\<close> and
  \<open>Operator.has_attr\<close> are not among the sources. The first makes an operator of the
  given type, inputs, outputs and attributes, with the distributed attributes of a new
  operator, and puts it before the operator at the index; the second takes out the
  operator at the index.
\<close>

definition default_dist_attr :: dist_attr where
  "default_dist_attr = \<lparr>execution_stream = ''default'', stream_priority = 0,
     force_record_event = False, event_to_record = ''default'', events_to_wait = []\<rparr>"

definition sync_op :: "string \<Rightarrow> string \<Rightarrow> (string \<times> attr_value) list \<Rightarrow> operator" where
  "sync_op t name attrs = \<lparr>op_type = t, op_inputs = [(''X'', [name])],
     op_outputs = [(''Out'', [name])], op_attrs = attrs, op_dist_attr = default_dist_attr\<rparr>"

definition insert_op_without_sync :: "nat \<Rightarrow> 'a \<Rightarrow> 'a list \<Rightarrow> 'a list" where
  "insert_op_without_sync index x xs = take index xs @ x # drop index xs"

definition has_attr :: "operator \<Rightarrow> string \<Rightarrow> bool" where
  "has_attr op name = (map_of (op_attrs op) name \<noteq> None)"

text \<open>The index of the first element of a list that satisfies a test, for the loops
  that \<open>break\<close> at the first hit.\<close>

fun first_index :: "('a \<Rightarrow> bool) \<Rightarrow> 'a list \<Rightarrow> nat option" where
  "first_index P [] = None"
| "first_index P (x # xs) = (if P x then Some 0 else map_option Suc (first_index P xs))"

text \<open>
  The first loop runs over a copy of the operator list while it inserts into the list
  of the block. The operators of the copy are the objects of the block, so the list of
  the block is kept with the index in the copy beside every operator that comes from
  it; \<open>_set_attr\<close> on the operator with index \<open>k\<close> of the copy changes that operator
  wherever it stands by now.
\<close>

definition mutate_cell ::
  "nat \<Rightarrow> operator \<Rightarrow> (nat option \<times> operator) list \<Rightarrow> (nat option \<times> operator) list" where
  "mutate_cell k op cs = map (\<lambda>(t, old). if t = Some k then (t, op) else (t, old)) cs"

definition insert_sync_step ::
  "block \<Rightarrow> nat option \<Rightarrow> nat \<times> operator \<Rightarrow> (nat option \<times> operator) list \<times> nat
     \<Rightarrow> py_error + (nat option \<times> operator) list \<times> nat" where
  "insert_sync_step blk first_optimize_index entry st =
     (let (index, op) = entry; (cs, offset) = st;
          op1 = (if op_type op \<in> set [''send_v2'', ''recv_v2'']
                 then set_attr ''dynamic_shape'' (ABool False) op else op)
      in if op_type op = ''send_v2'' then
           (let op2 = set_attr ''use_calc_stream'' (ABool False) op1;
                cs1 = mutate_cell index op2 cs
            in case op_attr op2 ''op_role'' of
                 Inl e \<Rightarrow> Inl e
               | Inr op_role \<Rightarrow>
             (case op_attr op2 ''ring_id'' of
                 Inl e \<Rightarrow> Inl e
               | Inr ring_id \<Rightarrow>
             (case input_arg_names op2 of
                 [] \<Rightarrow> Inl IndexError
               | name # _ \<Rightarrow>
             (case block_var blk name of
                 Inl e \<Rightarrow> Inl e
               | Inr var \<Rightarrow>
             (let cs2 = insert_op_without_sync (index + offset)
                          (None, sync_op ''c_sync_calc_stream'' (var_name var)
                                   [(''op_role'', op_role)]) cs1;
                  offset1 = offset + 1
              in case py_int op_role of
                   Inl e \<Rightarrow> Inl e
                 | Inr role \<Rightarrow>
               (case (if role = OpRole_Backward
                      then (case first_optimize_index of
                              None \<Rightarrow> Inl TypeError
                            | Some f \<Rightarrow> Inr (f + offset1, OpRole_Optimize))
                      else Inr (index + offset1 + 1, OpRole_Backward)) of
                   Inl e \<Rightarrow> Inl e
                 | Inr (index1, new_op_role) \<Rightarrow>
                     (let sync_comm_op = sync_op ''c_sync_comm_stream'' (var_name var)
                            [(''op_role'', AInt new_op_role), (''ring_id'', ring_id)]
                      in if role = OpRole_Forward
                         then Inr (insert_op_without_sync index1
                                     (None, set_attr ''pipeline_flag'' (AStr []) sync_comm_op)
                                     cs2,
                                   offset1 + 1)
                         else Inr (insert_op_without_sync index1 (None, sync_comm_op) cs2,
                                   offset1))))))))
         else Inr (mutate_cell index op1 cs, offset))"

fun insert_sync_loop ::
  "block \<Rightarrow> nat option \<Rightarrow> (nat \<times> operator) list \<Rightarrow> (nat option \<times> operator) list \<times> nat
     \<Rightarrow> py_error + (nat option \<times> operator) list \<times> nat" where
  "insert_sync_loop blk first_optimize_index [] st = Inr st"
| "insert_sync_loop blk first_optimize_index (entry # entries) st =
     (case insert_sync_step blk first_optimize_index entry st of
        Inl e \<Rightarrow> Inl e
      | Inr st' \<Rightarrow> insert_sync_loop blk first_optimize_index entries st')"

text \<open>
  The second loop: a \<open>c_sync_comm_stream\<close> operator with the \<open>pipeline_flag\<close> that stands
  before the first backward \<open>recv_v2\<close> is taken out, and a \<open>nop\<close> is put at the index
  of that \<open>recv_v2\<close> unless the new executor is in use.
\<close>

definition replace_sync_step ::
  "block \<Rightarrow> bool \<Rightarrow> nat \<Rightarrow> nat \<times> operator \<Rightarrow> operator list \<times> int
     \<Rightarrow> py_error + operator list \<times> int" where
  "replace_sync_step blk new_executor backward_recv_index entry st =
     (let (index, op) = entry; (ops, offset) = st
      in if op_type op = ''c_sync_comm_stream'' \<and> has_attr op ''pipeline_flag'' then
           (case output_arg_names op of
              [] \<Rightarrow> Inl IndexError
            | name # _ \<Rightarrow>
           (case block_var blk name of
              Inl e \<Rightarrow> Inl e
            | Inr var \<Rightarrow>
                (let ops1 = remove_op (nat (int index + offset)) ops;
                     offset1 = offset - 1
                 in if \<not> new_executor
                    then Inr (insert_op_without_sync backward_recv_index
                                (sync_op ''nop'' (var_name var)
                                   [(''op_role'', AInt OpRole_Backward)]) ops1,
                              offset1)
                    else Inr (ops1, offset1))))
         else Inr (ops, offset))"

fun replace_sync_loop ::
  "block \<Rightarrow> bool \<Rightarrow> nat \<Rightarrow> (nat \<times> operator) list \<Rightarrow> operator list \<times> int
     \<Rightarrow> py_error + operator list \<times> int" where
  "replace_sync_loop blk new_executor backward_recv_index [] st = Inr st"
| "replace_sync_loop blk new_executor backward_recv_index (entry # entries) st =
     (case replace_sync_step blk new_executor backward_recv_index entry st of
        Inl e \<Rightarrow> Inl e
      | Inr st' \<Rightarrow> replace_sync_loop blk new_executor backward_recv_index entries st')"

text \<open>
  The body of the loop over the blocks. The classifiers \<open>is_backward_op\<close> and
  \<open>is_optimize_op\<close> and the flag \<open>use_new_executor()\<close> come from outside.
\<close>

definition insert_sync_block ::
  "(operator \<Rightarrow> bool) \<Rightarrow> (operator \<Rightarrow> bool) \<Rightarrow> bool \<Rightarrow> block \<Rightarrow> py_error + block" where
  "insert_sync_block is_backward_op is_optimize_op new_executor blk =
     (let first_optimize_index = first_index is_optimize_op (blk_ops blk)
      in case insert_sync_loop blk first_optimize_index (enumerate 0 (blk_ops blk))
                (map (\<lambda>(k, op). (Some k, op)) (enumerate 0 (blk_ops blk)), 0) of
           Inl e \<Rightarrow> Inl e
         | Inr (cs, _) \<Rightarrow>
             (let ops1 = map snd cs
              in case first_index (\<lambda>op. op_type op = ''recv_v2'' \<and> is_backward_op op) ops1 of
                   None \<Rightarrow> Inr (blk\<lparr>blk_ops := ops1\<rparr>)
                 | Some backward_recv_index \<Rightarrow>
                     (case replace_sync_loop blk new_executor backward_recv_index
                             (take backward_recv_index (enumerate 0 ops1)) (ops1, 0) of
                        Inl e \<Rightarrow> Inl e
                      | Inr (ops2, _) \<Rightarrow> Inr (blk\<lparr>blk_ops := ops2\<rparr>))))"

definition insert_sync_for_fthenb_1f1b ::
  "(operator \<Rightarrow> bool) \<Rightarrow> (operator \<Rightarrow> bool) \<Rightarrow> bool \<Rightarrow> program \<Rightarrow> py_error + program" where
  "insert_sync_for_fthenb_1f1b is_backward_op is_optimize_op new_executor p =
     (case for_each (insert_sync_block is_backward_op is_optimize_op new_executor) (blocks p) of
        Inl e \<Rightarrow> Inl e
      | Inr bs \<Rightarrow> Inr (p\<lparr>global_block := hd bs, sub_blocks := tl bs\<rparr>))"

section \<open>Role split: \<open>_program_for_fthenb_and_1f1b\<close>\<close>

definition is_fetch_op :: "operator \<Rightarrow> bool" where
  "is_fetch_op op = (op_type op \<in> set [''fetch'', ''fetch_v2''])"

text \<open>
  \<open>_split_ops\<close>, with the classifiers \<open>is_forward_op\<close>, \<open>is_backward_op\<close> and
  \<open>is_optimize_op\<close> from outside. The three lists grow at the end.
\<close>

definition role_error :: "attr_value \<Rightarrow> py_error" where
  "role_error op_role =
     ValueError (''The op role: '' @ py_str op_role @
                 '' isn't one of Forward, Backward or Optimizer.'')"

fun split_ops_loop ::
  "(operator \<Rightarrow> bool) \<Rightarrow> (operator \<Rightarrow> bool) \<Rightarrow> (operator \<Rightarrow> bool) \<Rightarrow> operator list
     \<Rightarrow> operator list \<times> operator list \<times> operator list
     \<Rightarrow> py_error + operator list \<times> operator list \<times> operator list" where
  "split_ops_loop is_forward_op is_backward_op is_optimize_op [] acc = Inr acc"
| "split_ops_loop is_forward_op is_backward_op is_optimize_op (op # ops)
       (fwd_ops, bwd_ops, opt_ops) =
     (if is_fetch_op op
      then split_ops_loop is_forward_op is_backward_op is_optimize_op ops
             (fwd_ops, bwd_ops, opt_ops)
      else if is_forward_op op
      then split_ops_loop is_forward_op is_backward_op is_optimize_op ops
             (fwd_ops @ [op], bwd_ops, opt_ops)
      else if is_backward_op op
      then split_ops_loop is_forward_op is_backward_op is_optimize_op ops
             (fwd_ops, bwd_ops @ [op], opt_ops)
      else if is_optimize_op op
      then split_ops_loop is_forward_op is_backward_op is_optimize_op ops
             (fwd_ops, bwd_ops, opt_ops @ [op])
      else (case op_attr op ''op_role'' of
              Inl e \<Rightarrow> Inl e
            | Inr op_role \<Rightarrow> Inl (role_error op_role)))"

definition split_ops ::
  "(operator \<Rightarrow> bool) \<Rightarrow> (operator \<Rightarrow> bool) \<Rightarrow> (operator \<Rightarrow> bool) \<Rightarrow> block
     \<Rightarrow> py_error + operator list \<times> operator list \<times> operator list" where
  "split_ops is_forward_op is_backward_op is_optimize_op src_block =
     split_ops_loop is_forward_op is_backward_op is_optimize_op (blk_ops src_block)
       ([], [], [])"

text \<open>
  Modelled from the spec: \<open>Program()\<close>, \<open>Program.block\<close>, \<open>Program._create_block\<close> and
  \<open>Block._set_forward_block_idx\<close> are not among the sources. A new program has a
  global block without operators and declarations. \<open>_create_block\<close> adds an empty block
  under the block with the given index, which it looks up in the list of the blocks,
  and returns it.
\<close>

definition empty_block :: "int \<Rightarrow> block" where
  "empty_block parent = \<lparr>blk_ops = [], blk_vars = [], blk_parent_idx = parent,
     blk_forward_block_idx = - 1\<rparr>"

definition new_program :: program where
  "new_program = \<lparr>global_block = empty_block (- 1), sub_blocks = []\<rparr>"

definition set_block :: "nat \<Rightarrow> block \<Rightarrow> program \<Rightarrow> program" where
  "set_block i b p =
     (if i = 0 then p\<lparr>global_block := b\<rparr>
      else p\<lparr>sub_blocks := (sub_blocks p)[i - 1 := b]\<rparr>)"

definition create_block :: "program \<Rightarrow> int \<Rightarrow> py_error + program \<times> nat" where
  "create_block p parent_idx =
     (case py_index (length (blocks p)) parent_idx of
        None \<Rightarrow> Inl IndexError
      | Some parent \<Rightarrow>
          Inr (p\<lparr>sub_blocks := sub_blocks p @ [empty_block (int parent)]\<rparr>,
               length (blocks p)))"

text \<open>\<open>_add_ops_into_block\<close>.\<close>

fun add_ops_into_block ::
  "program \<Rightarrow> block \<Rightarrow> block \<Rightarrow> operator list \<Rightarrow> py_error + block" where
  "add_ops_into_block p src_block dst_block [] = Inr dst_block"
| "add_ops_into_block p src_block dst_block (op # ops) =
     (case create_program p src_block dst_block op False of
        Inl e \<Rightarrow> Inl e
      | Inr dst_block' \<Rightarrow> add_ops_into_block p src_block dst_block' ops)"

text \<open>
  What the body of the loop over the blocks does for one of the three sub-programs:
  the sub-program and the index of its block in use, before and after.
\<close>

definition place_ops ::
  "program \<Rightarrow> nat \<Rightarrow> block \<Rightarrow> operator list \<Rightarrow> program \<times> nat \<Rightarrow> py_error + program \<times> nat" where
  "place_ops p idx src_block ops st =
     (let (prog, cur) = st
      in if idx = 0 then
           (case add_ops_into_block p src_block (blocks prog ! 0) ops of
              Inl e \<Rightarrow> Inl e
            | Inr b \<Rightarrow> Inr (set_block 0 b prog, 0))
         else if length ops \<noteq> 0 then
           (case create_block prog (blk_parent_idx src_block) of
              Inl e \<Rightarrow> Inl e
            | Inr (prog1, new) \<Rightarrow>
                (case add_ops_into_block p src_block
                        ((blocks prog1 ! new)
                           \<lparr>blk_forward_block_idx := blk_forward_block_idx src_block\<rparr>) ops of
                   Inl e \<Rightarrow> Inl e
                 | Inr b \<Rightarrow> Inr (set_block new b prog1, new)))
         else Inr (prog, cur))"

record split_state =
  fwd_prog :: program
  fwd_block :: nat
  bwd_prog :: program
  bwd_block :: nat
  opt_prog :: program
  opt_block :: nat

text \<open>The loop over the fetch operators of a block.\<close>

definition fetch_step :: "program \<Rightarrow> block \<Rightarrow> operator \<Rightarrow> split_state \<Rightarrow> py_error + split_state" where
  "fetch_step p src_block fetch_op st =
     (if op_type fetch_op \<in> set [''fetch'', ''fetch_v2''] then
        (case input_arg_names fetch_op of
           [] \<Rightarrow> Inl IndexError
         | in_name # _ \<Rightarrow>
             if find_var_recursive (fwd_prog st) (blocks (fwd_prog st) ! fwd_block st) in_name
                  \<noteq> None
             then (case create_program p src_block (blocks (fwd_prog st) ! fwd_block st)
                          fetch_op False of
                     Inl e \<Rightarrow> Inl e
                   | Inr b \<Rightarrow> Inr (st\<lparr>fwd_prog := set_block (fwd_block st) b (fwd_prog st)\<rparr>))
             else if find_var_recursive (bwd_prog st) (blocks (bwd_prog st) ! bwd_block st)
                       in_name \<noteq> None
             then (case create_program p src_block (blocks (bwd_prog st) ! bwd_block st)
                          fetch_op False of
                     Inl e \<Rightarrow> Inl e
                   | Inr b \<Rightarrow> Inr (st\<lparr>bwd_prog := set_block (bwd_block st) b (bwd_prog st)\<rparr>))
             else if find_var_recursive (opt_prog st) (blocks (opt_prog st) ! opt_block st)
                       in_name \<noteq> None
             then (case create_program p src_block (blocks (opt_prog st) ! opt_block st)
                          fetch_op False of
                     Inl e \<Rightarrow> Inl e
                   | Inr b \<Rightarrow> Inr (st\<lparr>opt_prog := set_block (opt_block st) b (opt_prog st)\<rparr>))
             else Inr st)
      else Inr st)"

fun fetch_loop ::
  "program \<Rightarrow> block \<Rightarrow> operator list \<Rightarrow> split_state \<Rightarrow> py_error + split_state" where
  "fetch_loop p src_block [] st = Inr st"
| "fetch_loop p src_block (fetch_op # ops) st =
     (case fetch_step p src_block fetch_op st of
        Inl e \<Rightarrow> Inl e
      | Inr st' \<Rightarrow> fetch_loop p src_block ops st')"

text \<open>The body of the loop over the blocks, after \<open>_split_ops\<close> has returned.\<close>

definition place_block ::
  "program \<Rightarrow> nat \<Rightarrow> block \<Rightarrow> operator list \<times> operator list \<times> operator list
     \<Rightarrow> split_state \<Rightarrow> py_error + split_state" where
  "place_block p idx src_block parts st =
     (let (fwd_ops, bwd_ops, opt_ops) = parts
      in case place_ops p idx src_block fwd_ops (fwd_prog st, fwd_block st) of
           Inl e \<Rightarrow> Inl e
         | Inr (fp, fb) \<Rightarrow>
        (case place_ops p idx src_block bwd_ops (bwd_prog st, bwd_block st) of
           Inl e \<Rightarrow> Inl e
         | Inr (bp, bb) \<Rightarrow>
        (case place_ops p idx src_block opt_ops (opt_prog st, opt_block st) of
           Inl e \<Rightarrow> Inl e
         | Inr (tp, tb) \<Rightarrow>
             fetch_loop p src_block (blk_ops src_block)
               \<lparr>fwd_prog = fp, fwd_block = fb, bwd_prog = bp, bwd_block = bb,
                opt_prog = tp, opt_block = tb\<rparr>)))"

fun split_blocks ::
  "(operator \<Rightarrow> bool) \<Rightarrow> (operator \<Rightarrow> bool) \<Rightarrow> (operator \<Rightarrow> bool) \<Rightarrow> program \<Rightarrow> nat
     \<Rightarrow> block list \<Rightarrow> split_state \<Rightarrow> py_error + split_state" where
  "split_blocks is_forward_op is_backward_op is_optimize_op p idx [] st = Inr st"
| "split_blocks is_forward_op is_backward_op is_optimize_op p idx (src_block # bs) st =
     (case split_ops is_forward_op is_backward_op is_optimize_op src_block of
        Inl e \<Rightarrow> Inl e
      | Inr parts \<Rightarrow>
          (case place_block p idx src_block parts st of
             Inl e \<Rightarrow> Inl e
           | Inr st' \<Rightarrow>
               split_blocks is_forward_op is_backward_op is_optimize_op p (Suc idx) bs st'))"

definition initial_split_state :: split_state where
  "initial_split_state = \<lparr>fwd_prog = new_program, fwd_block = 0, bwd_prog = new_program,
     bwd_block = 0, opt_prog = new_program, opt_block = 0\<rparr>"

text \<open>The first step of the pass, and the program as it leaves it.\<close>

definition sync_step ::
  "(operator \<Rightarrow> bool) \<Rightarrow> (operator \<Rightarrow> bool) \<Rightarrow> bool \<Rightarrow> program \<Rightarrow> bool \<Rightarrow> py_error + program" where
  "sync_step is_backward_op is_optimize_op new_executor p enable_send_recv_overlap =
     (if enable_send_recv_overlap then overlap_send_recv p
      else insert_sync_for_fthenb_1f1b is_backward_op is_optimize_op new_executor p)"

definition program_for_fthenb_and_1f1b ::
  "(operator \<Rightarrow> bool) \<Rightarrow> (operator \<Rightarrow> bool) \<Rightarrow> (operator \<Rightarrow> bool) \<Rightarrow> bool \<Rightarrow> program \<Rightarrow> bool
     \<Rightarrow> py_error + program list" where
  "program_for_fthenb_and_1f1b is_forward_op is_backward_op is_optimize_op new_executor p
       enable_send_recv_overlap =
     (case sync_step is_backward_op is_optimize_op new_executor p enable_send_recv_overlap of
        Inl e \<Rightarrow> Inl e
      | Inr p' \<Rightarrow>
          (case split_blocks is_forward_op is_backward_op is_optimize_op p' 0 (blocks p')
                  initial_split_state of
             Inl e \<Rightarrow> Inl e
           | Inr st \<Rightarrow> Inr [fwd_prog st, bwd_prog st, opt_prog st]))"

text \<open>
  The spec's words for the operator that the split has no place for: it is no fetch
  operator and the classifiers take it for none of forward, backward and optimize.
\<close>

definition no_role ::
  "(operator \<Rightarrow> bool) \<Rightarrow> (operator \<Rightarrow> bool) \<Rightarrow> (operator \<Rightarrow> bool) \<Rightarrow> operator \<Rightarrow> bool" where
  "no_role is_forward_op is_backward_op is_optimize_op op \<longleftrightarrow>
     \<not> is_fetch_op op \<and> \<not> is_forward_op op \<and> \<not> is_backward_op op \<and> \<not> is_optimize_op op"

section \<open>Example inputs\<close>

definition ex_var :: "string \<Rightarrow> variable" where
  "ex_var name = \<lparr>var_name = name, var_type = LOD_TENSOR, var_shape = Some [2, 3],
     var_dtype = Some ''float32'', var_lod_level = Some 0, var_persistable = False,
     var_error_clip = [], var_stop_gradient = False, var_is_data = False,
     var_belong_to_optimizer = False, var_param = None\<rparr>"

definition ex_dist_attr :: dist_attr where
  "ex_dist_attr = \<lparr>execution_stream = [], stream_priority = 0, force_record_event = False,
     event_to_record = [], events_to_wait = []\<rparr>"

definition ex_op :: "string \<Rightarrow> string list \<Rightarrow> string list \<Rightarrow> operator" where
  "ex_op t ins outs = \<lparr>op_type = t, op_inputs = [(''X'', ins)],
     op_outputs = [(''Out'', outs)], op_attrs = [(''op_role'', AInt 0)],
     op_dist_attr = ex_dist_attr\<rparr>"

definition ex_block :: "operator list \<Rightarrow> (string \<times> variable) list \<Rightarrow> block" where
  "ex_block ops vars = \<lparr>blk_ops = ops, blk_vars = vars,
      blk_parent_idx = - 1, blk_forward_block_idx = - 1\<rparr>"

definition ex_prog_a :: program where
  "ex_prog_a = \<lparr>global_block = ex_block [ex_op ''scale'' [''a''] [''a'']] [(''a'', ex_var ''a'')],
      sub_blocks = []\<rparr>"

definition ex_job :: "string \<Rightarrow> int \<Rightarrow> job" where
  "ex_job t m = \<lparr>job_type = t, micro_batch_id = m, skip_gc_vars = {}\<rparr>"

definition ex_jobs :: "job list" where
  "ex_jobs = [ex_job ''forward'' 0, ex_job ''forward'' 1,
              ex_job ''backward'' 1, ex_job ''backward'' 0]"

definition ex_req :: "string \<Rightarrow> string set option" where
  "ex_req = type_to_required_vars (\<lambda>_ _ _ _. {}) [''forward'', ''backward''] [ex_prog_a, ex_prog_a]"

definition ex_prog_3 :: program where
  "ex_prog_3 = \<lparr>global_block = ex_block
       [ex_op ''scale'' [''a''] [''b''], ex_op ''relu'' [''b''] [''c''],
        ex_op ''scale'' [''c''] [''d'']]
       [(''a'', ex_var ''a''), (''b'', ex_var ''b''), (''c'', ex_var ''c''),
        (''d'', ex_var ''d''), (''e'', ex_var ''e'')],
      sub_blocks = []\<rparr>"

definition ex_prog_undeclared :: program where
  "ex_prog_undeclared = \<lparr>global_block = ex_block
       [ex_op ''shadow_output'' [''a''] [''@EMPTY@'']] [(''a'', ex_var ''a'')],
      sub_blocks = []\<rparr>"

definition ex_ops_10 :: "operator list" where
  "ex_ops_10 =
     [ex_op ''scale'' [''in0''] [''x''], ex_op ''scale'' [''in0''] [''y''],
      ex_op ''scale'' [''in0''] [''z''], ex_op ''scale'' [''in0''] [''t3''],
      ex_op ''scale'' [''y''] [''y''], ex_op ''scale'' [''y''] [''t5''],
      ex_op ''scale'' [''t5''] [''t6''],
      ex_op ''scale'' [''y''] [''x''], ex_op ''scale'' [''x''] [''t8''],
      ex_op ''scale'' [''y'', ''z''] [''t9'']]"

definition ex_prog_10 :: program where
  "ex_prog_10 = \<lparr>global_block = ex_block ex_ops_10
       (map (\<lambda>n. (n, ex_var n))
          [''in0'', ''x'', ''y'', ''z'', ''t3'', ''t5'', ''t6'', ''t8'', ''t9'']),
      sub_blocks = []\<rparr>"


definition ex_src_op :: operator where
  "ex_src_op = ex_op ''scale'' [''a''] [''b'']"

definition ex_src :: block where
  "ex_src = ex_block [ex_src_op] [(''a'', ex_var ''a''), (''b'', ex_var ''b'')]"

definition ex_src_prog :: program where
  "ex_src_prog = \<lparr>global_block = ex_src, sub_blocks = []\<rparr>"

definition ex_send :: "int \<Rightarrow> operator" where
  "ex_send ring = \<lparr>op_type = ''send_v2'', op_inputs = [(''X'', [''a''])], op_outputs = [],
     op_attrs = [(''ring_id'', AInt ring), (''use_calc_stream'', ABool False)],
     op_dist_attr = ex_dist_attr\<rparr>"

definition ex_recv :: operator where
  "ex_recv = \<lparr>op_type = ''recv_v2'', op_inputs = [], op_outputs = [(''Out'', [''b''])],
     op_attrs = [(''ring_id'', AInt 0)], op_dist_attr = ex_dist_attr\<rparr>"

definition ex_prog_comm :: program where
  "ex_prog_comm = \<lparr>global_block = ex_block
       [ex_recv, ex_op ''scale'' [''b''] [''a''], ex_send 12, ex_send 7]
       [(''a'', ex_var ''a''), (''b'', ex_var ''b'')],
      sub_blocks = []\<rparr>"

definition ex_is_forward :: "operator \<Rightarrow> bool" where
  "ex_is_forward op = (map_of (op_attrs op) ''op_role'' = Some (AInt 0))"

definition ex_is_backward :: "operator \<Rightarrow> bool" where
  "ex_is_backward op = (map_of (op_attrs op) ''op_role'' = Some (AInt 1))"

definition ex_is_optimize :: "operator \<Rightarrow> bool" where
  "ex_is_optimize op = (map_of (op_attrs op) ''op_role'' = Some (AInt 2))"

definition ex_rpc_op :: operator where
  "ex_rpc_op = \<lparr>op_type = ''listen_and_serv'', op_inputs = [(''X'', [''b''])],
     op_outputs = [], op_attrs = [(''op_role'', AInt 4)], op_dist_attr = ex_dist_attr\<rparr>"

definition ex_prog_role :: program where
  "ex_prog_role = \<lparr>global_block = ex_block
       [ex_op ''scale'' [''a''] [''b''], ex_rpc_op]
       [(''a'', ex_var ''a''), (''b'', ex_var ''b'')],
      sub_blocks = []\<rparr>"

section \<open>Properties of \<open>OpInOutInfo\<close>\<close>

lemma add_slot_names_eq:
  "add_slot_names nnb args slots acc =
     acc \<union> (\<Union>slot \<in> set slots - nnb. set (args slot))"
  by (induction slots arbitrary: acc) auto

text \<open>
  C8. After \<open>build_info\<close> has run on a fresh \<open>OpInOutInfo\<close> for an operator,
  \<open>is_needed name\<close> is true exactly when the registry reports no no-need-buffer slot for
  the operator, or the name occurs in an input or output slot of the operator that is
  not a no-need-buffer slot.
\<close>

theorem C8_is_needed_iff:
  "is_needed (build_info infer OpInOutInfo_init op) name \<longleftrightarrow>
     (case get_op_attrs op of (inputs, outputs, attrs) \<Rightarrow>
        infer (op_type op) inputs outputs attrs = {} \<or>
        (\<exists>slot. slot \<in> set (input_names op) \<and>
                slot \<notin> infer (op_type op) inputs outputs attrs \<and>
                name \<in> set (op_input op slot)) \<or>
        (\<exists>slot. slot \<in> set (output_names op) \<and>
                slot \<notin> infer (op_type op) inputs outputs attrs \<and>
                name \<in> set (op_output op slot)))"
  by (auto simp: is_needed_def build_info_def OpInOutInfo_init_def Let_def
        add_slot_names_eq split: prod.splits)

section \<open>Properties of \<open>set_skip_gc_vars\<close>\<close>

lemma skip_gc_loop_length:
  "skip_gc_loop req js S = Inr (js', S') \<Longrightarrow> length js' = length js \<and> length S' = length S"
  by (induction js arbitrary: js' S')
     (auto simp: skip_gc_step_def Let_def split: sum.splits prod.splits option.splits if_splits)

lemma py_index_less: "py_index n i = Some m \<Longrightarrow> m < n"
  by (auto simp: py_index_def split: if_splits)

lemma skip_gc_step_Inr:
  "skip_gc_step req j S = Inr (j', S') \<Longrightarrow>
     \<exists>m. py_index (length S) (micro_batch_id j) = Some m \<and>
         req (job_type j) = Some (required_of req (job_type j)) \<and>
         j' = j\<lparr>skip_gc_vars := required_of req (job_type j) \<inter> S ! m\<rparr> \<and>
         S' = S[m := S ! m \<union> required_of req (job_type j)] \<and>
         (job_type j = ''backward'' \<longrightarrow> required_of req (job_type j) \<inter> S ! m = {})"
  by (auto simp: skip_gc_step_def Let_def required_of_def split: option.splits if_splits)

text \<open>The accumulator of a micro-batch after the loop has run over a list of jobs.\<close>

lemma skip_gc_loop_suffixed:
  "skip_gc_loop req js S = Inr (js', S') \<Longrightarrow> m < length S \<Longrightarrow>
     S' ! m = S ! m \<union> suffix_required req (length S) js m"
proof (induction js arbitrary: js' S')
  case Nil
  then show ?case by (simp add: suffix_required_def)
next
  case (Cons j js)
  from Cons.prems(1) obtain js1 S1 j1 where
    r: "skip_gc_loop req js S = Inr (js1, S1)" and
    s: "skip_gc_step req j S1 = Inr (j1, S')"
    by (auto split: sum.splits prod.splits)
  have l: "length S1 = length S" using skip_gc_loop_length[OF r] by simp
  have ih: "S1 ! m = S ! m \<union> suffix_required req (length S) js m"
    using Cons.IH[OF r Cons.prems(2)] .
  from s obtain rv k where
    rv: "req (job_type j) = Some rv" and k: "py_index (length S1) (micro_batch_id j) = Some k"
    and S': "S' = S1[k := S1 ! k \<union> rv]"
    by (auto simp: skip_gc_step_def Let_def split: option.splits if_splits)
  have kl: "k < length S1" using k by (rule py_index_less)
  show ?case
  proof (cases "k = m")
    case True
    then show ?thesis using S' ih kl rv k l
      by (auto simp: suffix_required_def required_of_def)
  next
    case False
    then show ?thesis using S' ih kl rv k l
      by (auto simp: suffix_required_def required_of_def)
  qed
qed

lemma skip_gc_loop_nth:
  "skip_gc_loop req js S = Inr (js', S') \<Longrightarrow> i < length js \<Longrightarrow>
     \<exists>m. py_index (length S) (micro_batch_id (js ! i)) = Some m \<and>
         js' ! i = (js ! i)\<lparr>skip_gc_vars :=
            required_of req (job_type (js ! i)) \<inter>
            (S ! m \<union> suffix_required req (length S) (drop (Suc i) js) m)\<rparr>"
proof (induction js arbitrary: js' S' i)
  case Nil
  then show ?case by simp
next
  case (Cons j js)
  from Cons.prems(1) obtain js1 S1 j1 where
    r: "skip_gc_loop req js S = Inr (js1, S1)" and
    s: "skip_gc_step req j S1 = Inr (j1, S')" and
    js': "js' = j1 # js1"
    by (auto split: sum.splits prod.splits)
  have l: "length S1 = length S" using skip_gc_loop_length[OF r] by simp
  show ?case
  proof (cases i)
    case 0
    from skip_gc_step_Inr[OF s] obtain m where
      m: "py_index (length S1) (micro_batch_id j) = Some m" and
      j1: "j1 = j\<lparr>skip_gc_vars := required_of req (job_type j) \<inter> S1 ! m\<rparr>"
      by blast
    have "m < length S" using py_index_less[OF m] l by simp
    from skip_gc_loop_suffixed[OF r this] m j1 l 0 js' show ?thesis by simp
  next
    case (Suc k)
    then have "k < length js" using Cons.prems(2) by simp
    from Cons.IH[OF r this] Suc js' show ?thesis by simp
  qed
qed

lemma skip_gc_loop_backward:
  "skip_gc_loop req js S = Inr (js', S') \<Longrightarrow> j' \<in> set js' \<Longrightarrow>
     job_type j' = ''backward'' \<Longrightarrow> skip_gc_vars j' = {}"
proof (induction js arbitrary: js' S')
  case Nil
  then show ?case by simp
next
  case (Cons j js)
  from Cons.prems(1) obtain js1 S1 j1 where
    r: "skip_gc_loop req js S = Inr (js1, S1)" and
    s: "skip_gc_step req j S1 = Inr (j1, S')" and
    js': "js' = j1 # js1"
    by (auto split: sum.splits prod.splits)
  from skip_gc_step_Inr[OF s] have
    "job_type j1 = ''backward'' \<Longrightarrow> skip_gc_vars j1 = {}" by auto
  with Cons.IH[OF r] Cons.prems(2,3) js' show ?case by auto
qed

lemma skip_gc_loop_append:
  "skip_gc_loop req (pre @ xs) S =
     (case skip_gc_loop req xs S of
        Inl e \<Rightarrow> Inl e
      | Inr (xs', S') \<Rightarrow>
          (case skip_gc_loop req pre S' of
             Inl e \<Rightarrow> Inl e
           | Inr (pre', S'') \<Rightarrow> Inr (pre' @ xs', S'')))"
  by (induction pre) (auto split: sum.splits prod.splits)

lemma ex_required: "required_vars_of_program (\<lambda>_ _ _ _. {}) ex_prog_a = {''a''}"
  by (simp add: required_vars_of_program_def blocks_def ex_prog_a_def ex_block_def
       required_vars_of_op_def skipped_op_types_def ex_op_def input_arg_names_def
       output_arg_names_def var_can_be_deleted_def find_var_recursive_def ex_var_def
       is_needed_def build_info_def get_op_attrs_def OpInOutInfo_init_def)

lemma ex_req_eq: "ex_req = [''forward'' \<mapsto> {''a''}, ''backward'' \<mapsto> {''a''}]"
  by (auto simp: ex_req_def type_to_required_vars_def type_to_program_def ex_required fun_eq_iff)

lemma ex_run:
  "set_skip_gc_vars (\<lambda>_ _ _ _. {}) 2 [''forward'', ''backward''] [ex_prog_a, ex_prog_a] ex_jobs
   = Inr [(ex_job ''forward'' 0)\<lparr>skip_gc_vars := {''a''}\<rparr>,
          (ex_job ''forward'' 1)\<lparr>skip_gc_vars := {''a''}\<rparr>,
          (ex_job ''backward'' 1)\<lparr>skip_gc_vars := {}\<rparr>,
          (ex_job ''backward'' 0)\<lparr>skip_gc_vars := {}\<rparr>]"
  by (simp add: set_skip_gc_vars_def ex_req_eq [unfolded ex_req_def] skip_gc_step_def
        py_index_def ex_job_def ex_jobs_def numeral_2_eq_2)

text \<open>
  C1. Whenever \<open>set_skip_gc_vars\<close> returns, every instance \<open>i\<close> = (type, m) has received
  \<open>type_to_required_vars[type]\<close> intersected with the accumulator of its micro-batch, which
  at that moment is the union of the required sets of the instances behind \<open>i\<close> that have
  the same micro-batch; one iteration sets the instance's set to the intersection and
  then adds \<open>type_to_required_vars[type]\<close> to the accumulator. For 2 micro-batches, the
  sequence fwd(0), fwd(1), bwd(1), bwd(0) and the required set {a} for both types, the
  sets are {a}, {a}, {} and {}.
\<close>

theorem C1_skip_gc_vars:
  "(set_skip_gc_vars infer n job_types sub_programs jobs = Inr jobs' \<longrightarrow>
      length jobs' = length jobs \<and>
      (\<forall>i<length jobs.
         \<exists>m. py_index (nat n) (micro_batch_id (jobs ! i)) = Some m \<and>
             jobs' ! i = (jobs ! i)\<lparr>skip_gc_vars :=
               required_of (type_to_required_vars infer job_types sub_programs)
                 (job_type (jobs ! i)) \<inter>
               suffix_required (type_to_required_vars infer job_types sub_programs) (nat n)
                 (drop (Suc i) jobs) m\<rparr>)) \<and>
   (skip_gc_step req j S = Inr (j', S') \<longrightarrow>
      (\<exists>m. py_index (length S) (micro_batch_id j) = Some m \<and>
           j' = j\<lparr>skip_gc_vars := required_of req (job_type j) \<inter> S ! m\<rparr> \<and>
           S' = S[m := S ! m \<union> required_of req (job_type j)])) \<and>
   set_skip_gc_vars (\<lambda>_ _ _ _. {}) 2 [''forward'', ''backward''] [ex_prog_a, ex_prog_a]
     [ex_job ''forward'' 0, ex_job ''forward'' 1, ex_job ''backward'' 1, ex_job ''backward'' 0]
   = Inr [(ex_job ''forward'' 0)\<lparr>skip_gc_vars := {''a''}\<rparr>,
          (ex_job ''forward'' 1)\<lparr>skip_gc_vars := {''a''}\<rparr>,
          (ex_job ''backward'' 1)\<lparr>skip_gc_vars := {}\<rparr>,
          (ex_job ''backward'' 0)\<lparr>skip_gc_vars := {}\<rparr>]"
proof (intro conjI impI allI)
  assume a: "set_skip_gc_vars infer n job_types sub_programs jobs = Inr jobs'"
  let ?req = "type_to_required_vars infer job_types sub_programs"
  from a obtain S where
    r: "skip_gc_loop ?req jobs (replicate (nat n) {}) = Inr (jobs', S)"
    by (auto simp: set_skip_gc_vars_def split: if_splits sum.splits)
  show "length jobs' = length jobs" using skip_gc_loop_length[OF r] by simp
  fix i assume i: "i < length jobs"
  from skip_gc_loop_nth[OF r i] obtain m where
    m: "py_index (nat n) (micro_batch_id (jobs ! i)) = Some m" and
    e: "jobs' ! i = (jobs ! i)\<lparr>skip_gc_vars :=
            required_of ?req (job_type (jobs ! i)) \<inter>
            (replicate (nat n) {} ! m \<union> suffix_required ?req (nat n) (drop (Suc i) jobs) m)\<rparr>"
    by auto
  have "m < nat n" using py_index_less[OF m] .
  then have "replicate (nat n) ({}::string set) ! m = {}" by simp
  with m e show "\<exists>m. py_index (nat n) (micro_batch_id (jobs ! i)) = Some m \<and>
             jobs' ! i = (jobs ! i)\<lparr>skip_gc_vars :=
               required_of ?req (job_type (jobs ! i)) \<inter>
               suffix_required ?req (nat n) (drop (Suc i) jobs) m\<rparr>"
    by simp
next
  assume "skip_gc_step req j S = Inr (j', S')"
  from skip_gc_step_Inr[OF this]
  show "\<exists>m. py_index (length S) (micro_batch_id j) = Some m \<and>
           j' = j\<lparr>skip_gc_vars := required_of req (job_type j) \<inter> S ! m\<rparr> \<and>
           S' = S[m := S ! m \<union> required_of req (job_type j)]"
    by blast
next
  show "set_skip_gc_vars (\<lambda>_ _ _ _. {}) 2 [''forward'', ''backward''] [ex_prog_a, ex_prog_a]
     [ex_job ''forward'' 0, ex_job ''forward'' 1, ex_job ''backward'' 1, ex_job ''backward'' 0]
   = Inr [(ex_job ''forward'' 0)\<lparr>skip_gc_vars := {''a''}\<rparr>,
          (ex_job ''forward'' 1)\<lparr>skip_gc_vars := {''a''}\<rparr>,
          (ex_job ''backward'' 1)\<lparr>skip_gc_vars := {}\<rparr>,
          (ex_job ''backward'' 0)\<lparr>skip_gc_vars := {}\<rparr>]"
    using ex_run by (simp add: ex_jobs_def)
qed

lemma ex_required_of:
  "required_of ex_req ''forward'' = {''a''}" "required_of ex_req ''backward'' = {''a''}"
  by (simp_all add: ex_req_eq required_of_def)

theorem C1_skip_gc_vars_witness:
  "set_skip_gc_vars (\<lambda>_ _ _ _. {}) 2 [''forward'', ''backward''] [ex_prog_a, ex_prog_a] ex_jobs
     = Inr [(ex_job ''forward'' 0)\<lparr>skip_gc_vars := {''a''}\<rparr>,
          (ex_job ''forward'' 1)\<lparr>skip_gc_vars := {''a''}\<rparr>,
          (ex_job ''backward'' 1)\<lparr>skip_gc_vars := {}\<rparr>,
          (ex_job ''backward'' 0)\<lparr>skip_gc_vars := {}\<rparr>] \<and>
   (\<exists>m. py_index 2 (micro_batch_id (ex_jobs ! 1)) = Some m \<and>
      (ex_job ''forward'' 1)\<lparr>skip_gc_vars := {''a''}\<rparr> =
      (ex_jobs ! 1)\<lparr>skip_gc_vars := required_of ex_req (job_type (ex_jobs ! 1)) \<inter>
          suffix_required ex_req 2 (drop 2 ex_jobs) m\<rparr>) \<and>
   skip_gc_step ex_req (ex_job ''forward'' 1) [{}, {''a''}]
     = Inr ((ex_job ''forward'' 1)\<lparr>skip_gc_vars := {''a''}\<rparr>, [{}, {''a''}])"
proof -
  let ?res = "[(ex_job ''forward'' 0)\<lparr>skip_gc_vars := {''a''}\<rparr>,
          (ex_job ''forward'' 1)\<lparr>skip_gc_vars := {''a''}\<rparr>,
          (ex_job ''backward'' 1)\<lparr>skip_gc_vars := {}\<rparr>,
          (ex_job ''backward'' 0)\<lparr>skip_gc_vars := {}\<rparr>]"
  have s: "skip_gc_step ex_req (ex_job ''forward'' 1) [{}, {''a''}]
     = Inr ((ex_job ''forward'' 1)\<lparr>skip_gc_vars := {''a''}\<rparr>, [{}, {''a''}])"
    by (simp add: skip_gc_step_def ex_req_eq py_index_def ex_job_def)
  note t = C1_skip_gc_vars[of "\<lambda>_ _ _ _. {}" 2 "[''forward'', ''backward'']"
      "[ex_prog_a, ex_prog_a]" ex_jobs ?res ex_req "ex_job ''forward'' 1" "[{}, {''a''}]"
      "(ex_job ''forward'' 1)\<lparr>skip_gc_vars := {''a''}\<rparr>" "[{}, {''a''}]"]
  from t ex_run have h: "\<forall>i<length ex_jobs.
         \<exists>m. py_index (nat 2) (micro_batch_id (ex_jobs ! i)) = Some m \<and>
             ?res ! i = (ex_jobs ! i)\<lparr>skip_gc_vars :=
               required_of ex_req (job_type (ex_jobs ! i)) \<inter>
               suffix_required ex_req (nat 2) (drop (Suc i) ex_jobs) m\<rparr>"
    unfolding ex_req_def by blast
  have "1 < length ex_jobs" by (simp add: ex_jobs_def)
  from h[rule_format, OF this]
  have "\<exists>m. py_index (nat 2) (micro_batch_id (ex_jobs ! 1)) = Some m \<and>
             ?res ! 1 = (ex_jobs ! 1)\<lparr>skip_gc_vars :=
               required_of ex_req (job_type (ex_jobs ! 1)) \<inter>
               suffix_required ex_req (nat 2) (drop (Suc 1) ex_jobs) m\<rparr>" .
  then show ?thesis using ex_run s by (simp add: numeral_2_eq_2)
qed

text \<open>
  C2. In the jobs that \<open>set_skip_gc_vars\<close> returns, every instance of type "backward" has
  an empty set. When the loop reaches a backward instance (the instances behind it have
  been processed) and its required set meets the accumulator of its micro-batch, the
  assertion fails: the function raises and returns nothing.
\<close>

theorem C2_backward_empty:
  "(set_skip_gc_vars infer n job_types sub_programs jobs = Inr jobs' \<longrightarrow>
      (\<forall>j \<in> set jobs'. job_type j = ''backward'' \<longrightarrow> skip_gc_vars j = {})) \<and>
   (1 \<le> n \<and> req = type_to_required_vars infer job_types sub_programs \<and>
    skip_gc_loop req post (replicate (nat n) {}) = Inr (post', S) \<and>
    job_type j = ''backward'' \<and> req ''backward'' = Some rv \<and>
    py_index (nat n) (micro_batch_id j) = Some m \<and>
    rv \<inter> suffix_required req (nat n) post m \<noteq> {} \<longrightarrow>
      set_skip_gc_vars infer n job_types sub_programs (pre @ j # post) =
        Inl (AssertionError ''the skip_gc_vars for backward subprogram must be empty''))"
proof (intro conjI impI ballI)
  fix j0
  assume a: "set_skip_gc_vars infer n job_types sub_programs jobs = Inr jobs'"
    and j0: "j0 \<in> set jobs'" "job_type j0 = ''backward''"
  from a obtain S0 where
    "skip_gc_loop (type_to_required_vars infer job_types sub_programs) jobs
       (replicate (nat n) {}) = Inr (jobs', S0)"
    by (auto simp: set_skip_gc_vars_def split: if_splits sum.splits)
  from skip_gc_loop_backward[OF this j0] show "skip_gc_vars j0 = {}" .
next
  assume h: "1 \<le> n \<and> req = type_to_required_vars infer job_types sub_programs \<and>
    skip_gc_loop req post (replicate (nat n) {}) = Inr (post', S) \<and>
    job_type j = ''backward'' \<and> req ''backward'' = Some rv \<and>
    py_index (nat n) (micro_batch_id j) = Some m \<and>
    rv \<inter> suffix_required req (nat n) post m \<noteq> {}"
  then have n1: "1 \<le> n"
    and rq: "req = type_to_required_vars infer job_types sub_programs"
    and r: "skip_gc_loop req post (replicate (nat n) {}) = Inr (post', S)"
    and jt: "job_type j = ''backward''"
    and rv: "req ''backward'' = Some rv"
    and m: "py_index (nat n) (micro_batch_id j) = Some m"
    and ne: "rv \<inter> suffix_required req (nat n) post m \<noteq> {}"
    by blast+
  have l: "length S = nat n" using skip_gc_loop_length[OF r] by simp
  have mn: "m < nat n" using m by (rule py_index_less)
  from skip_gc_loop_suffixed[OF r] mn
  have Sm: "S ! m = suffix_required req (nat n) post m" by simp
  have step: "skip_gc_step req j S =
      Inl (AssertionError ''the skip_gc_vars for backward subprogram must be empty'')"
    using jt rv m ne l Sm by (simp add: skip_gc_step_def Let_def)
  have "skip_gc_loop req (j # post) (replicate (nat n) {}) =
      Inl (AssertionError ''the skip_gc_vars for backward subprogram must be empty'')"
    using r step by simp
  then have "skip_gc_loop req (pre @ j # post) (replicate (nat n) {}) =
      Inl (AssertionError ''the skip_gc_vars for backward subprogram must be empty'')"
    by (simp add: skip_gc_loop_append)
  with n1 show "set_skip_gc_vars infer n job_types sub_programs (pre @ j # post) =
        Inl (AssertionError ''the skip_gc_vars for backward subprogram must be empty'')"
    unfolding rq by (simp add: set_skip_gc_vars_def)
qed

theorem C2_backward_empty_witness:
  "set_skip_gc_vars (\<lambda>_ _ _ _. {}) 2 [''forward'', ''backward''] [ex_prog_a, ex_prog_a] ex_jobs
     = Inr [(ex_job ''forward'' 0)\<lparr>skip_gc_vars := {''a''}\<rparr>,
          (ex_job ''forward'' 1)\<lparr>skip_gc_vars := {''a''}\<rparr>,
          (ex_job ''backward'' 1)\<lparr>skip_gc_vars := {}\<rparr>,
          (ex_job ''backward'' 0)\<lparr>skip_gc_vars := {}\<rparr>] \<and>
   job_type ((ex_job ''backward'' 1)\<lparr>skip_gc_vars := {}\<rparr>) = ''backward'' \<and>
   skip_gc_vars ((ex_job ''backward'' 1)\<lparr>skip_gc_vars := {}\<rparr>) = {} \<and>
   skip_gc_loop ex_req [ex_job ''forward'' 0] (replicate (nat 2) {})
     = Inr ([(ex_job ''forward'' 0)\<lparr>skip_gc_vars := {}\<rparr>], [{''a''}, {}]) \<and>
   {''a''} \<inter> suffix_required ex_req (nat 2) [ex_job ''forward'' 0] 0 \<noteq> {} \<and>
   set_skip_gc_vars (\<lambda>_ _ _ _. {}) 2 [''forward'', ''backward''] [ex_prog_a, ex_prog_a]
     ([] @ ex_job ''backward'' 0 # [ex_job ''forward'' 0])
     = Inl (AssertionError ''the skip_gc_vars for backward subprogram must be empty'')"
proof -
  let ?res = "[(ex_job ''forward'' 0)\<lparr>skip_gc_vars := {''a''}\<rparr>,
          (ex_job ''forward'' 1)\<lparr>skip_gc_vars := {''a''}\<rparr>,
          (ex_job ''backward'' 1)\<lparr>skip_gc_vars := {}\<rparr>,
          (ex_job ''backward'' 0)\<lparr>skip_gc_vars := {}\<rparr>]"
  have l: "skip_gc_loop ex_req [ex_job ''forward'' 0] (replicate (nat 2) {})
     = Inr ([(ex_job ''forward'' 0)\<lparr>skip_gc_vars := {}\<rparr>], [{''a''}, {}])"
    by (simp add: skip_gc_step_def ex_req_eq py_index_def ex_job_def numeral_2_eq_2)
  have n: "{''a''} \<inter> suffix_required ex_req (nat 2) [ex_job ''forward'' 0] 0 \<noteq> {}"
    by (simp add: suffix_required_def ex_required_of py_index_def ex_job_def)
  have b: "job_type (ex_job ''backward'' 0) = ''backward''"
    "py_index (nat 2) (micro_batch_id (ex_job ''backward'' 0)) = Some 0"
    "ex_req ''backward'' = Some {''a''}"
    by (simp_all add: ex_job_def py_index_def ex_req_eq)
  note t = C2_backward_empty[of "\<lambda>_ _ _ _. {}" 2 "[''forward'', ''backward'']"
      "[ex_prog_a, ex_prog_a]" ex_jobs ?res ex_req "[ex_job ''forward'' 0]"
      "[(ex_job ''forward'' 0)\<lparr>skip_gc_vars := {}\<rparr>]" "[{''a''}, {}]"
      "ex_job ''backward'' 0" "{''a''}" 0 "[]"]
  from t ex_run have
    "\<forall>j \<in> set ?res. job_type j = ''backward'' \<longrightarrow> skip_gc_vars j = {}" by blast
  then have e: "skip_gc_vars ((ex_job ''backward'' 1)\<lparr>skip_gc_vars := {}\<rparr>) = {}"
    by (simp add: ex_job_def)
  from t l n b have f:
    "set_skip_gc_vars (\<lambda>_ _ _ _. {}) 2 [''forward'', ''backward''] [ex_prog_a, ex_prog_a]
       ([] @ ex_job ''backward'' 0 # [ex_job ''forward'' 0])
     = Inl (AssertionError ''the skip_gc_vars for backward subprogram must be empty'')"
    unfolding ex_req_def by simp
  show ?thesis using ex_run e l n f by (simp add: ex_job_def)
qed

section \<open>Properties of the graph slicer\<close>

lemma fold_remove_op_upt:
  "e \<le> n \<Longrightarrow> n \<le> length ops \<Longrightarrow>
     fold remove_op (rev [e ..< n]) ops = take e ops @ drop n ops"
proof (induction n arbitrary: ops)
  case 0
  then show ?case by simp
next
  case (Suc n)
  show ?case
  proof (cases "e = Suc n")
    case True
    then show ?thesis by simp
  next
    case False
    with Suc.prems have en: "e \<le> n" by simp
    have l: "n \<le> length (remove_op n ops)" using Suc.prems by (simp add: remove_op_def)
    have "fold remove_op (rev [e ..< Suc n]) ops = fold remove_op (rev [e ..< n]) (remove_op n ops)"
      using en by simp
    also have "\<dots> = take e (remove_op n ops) @ drop n (remove_op n ops)"
      using Suc.IH[OF en l] .
    also have "\<dots> = take e ops @ drop (Suc n) ops"
      using en Suc.prems by (simp add: remove_op_def min_def)
    finally show ?thesis .
  qed
qed

lemma fold_remove_var:
  "fold remove_var ks vars = filter (\<lambda>kv. fst kv \<notin> set ks) vars"
  by (induction ks arbitrary: vars) (auto simp: remove_var_def AList.delete_eq intro: filter_cong)

lemma valid_vars_of_acc:
  "fold (\<lambda>op valid. valid \<union> set (input_arg_names op) \<union> set (output_arg_names op)) ops acc =
     acc \<union> (\<Union>op \<in> set ops. set (input_arg_names op) \<union> set (output_arg_names op))"
  by (induction ops arbitrary: acc) auto

lemma valid_vars_of_eq:
  "valid_vars_of ops = (\<Union>op \<in> set ops. set (input_arg_names op) \<union> set (output_arg_names op))"
  by (simp add: valid_vars_of_def valid_vars_of_acc)

lemma prune_program_Inr:
  assumes "s = (if a < 0 then a + int (length (global_ops p)) else a)"
    and "e = (if b < 0 then b + int (length (global_ops p)) else b)"
    and "0 \<le> s" "s < e" "e \<le> int (length (global_ops p))"
  shows "prune_program p a b =
     Inr (p\<lparr>global_block := (global_block p)\<lparr>
            blk_ops := drop (nat s) (take (nat e) (global_ops p)),
            blk_vars := filter (\<lambda>kv. fst kv \<in> arg_names_of (drop (nat s) (take (nat e) (global_ops p))))
                          (blk_vars (global_block p))\<rparr>\<rparr>)"
proof -
  let ?ops = "global_ops p"
  have 1: "fold remove_op (rev [nat e ..< length ?ops]) ?ops = take (nat e) ?ops"
    using assms(3-5) by (simp add: fold_remove_op_upt)
  have 2: "fold remove_op (rev [0 ..< nat s]) (take (nat e) ?ops) = drop (nat s) (take (nat e) ?ops)"
    using assms(3-5) fold_remove_op_upt[of 0 "nat s" "take (nat e) ?ops"] by simp
  have 3: "\<And>V. fold remove_var (filter (\<lambda>var. var \<notin> V) (map fst (blk_vars (global_block p))))
              (blk_vars (global_block p))
         = filter (\<lambda>kv. fst kv \<in> V) (blk_vars (global_block p))"
    unfolding fold_remove_var by (rule filter_cong) auto
  have 4: "prune_program p a b =
     Inr (p\<lparr>global_block := (global_block p)\<lparr>
            blk_ops := fold remove_op (rev [0 ..< nat s]) (fold remove_op (rev [nat e ..< length ?ops]) ?ops),
            blk_vars := fold remove_var (filter (\<lambda>var. var \<notin> valid_vars_of
                 (fold remove_op (rev [0 ..< nat s]) (fold remove_op (rev [nat e ..< length ?ops]) ?ops)))
                    (map fst (blk_vars (global_block p)))) (blk_vars (global_block p))\<rparr>\<rparr>)"
    using assms(3-5) unfolding prune_program_def Let_def assms(1,2)[symmetric] by simp
  show ?thesis unfolding 4 1 2 3 valid_vars_of_eq arg_names_of_def ..
qed

lemma prune_program_Inl:
  assumes "s = (if a < 0 then a + int (length (global_ops p)) else a)"
    and "e = (if b < 0 then b + int (length (global_ops p)) else b)"
    and "\<not> (0 \<le> s \<and> s < e \<and> e \<le> int (length (global_ops p)))"
  shows "prune_program p a b = Inl (AssertionError [])"
  using assms(3) unfolding prune_program_def Let_def assms(1,2)[symmetric] by auto

lemma strictly_sorted_iff: "strictly_sorted l \<longleftrightarrow> sorted_wrt (<) l"
  by (induction l rule: strictly_sorted.induct) (auto intro: less_trans)

lemma strictly_sorted_le_last: "strictly_sorted (b # rest) \<Longrightarrow> b \<le> last (b # rest)"
  by (induction rest arbitrary: b) (auto simp: strictly_sorted_iff less_imp_le)

lemma drop_take_append:
  assumes "a \<le> b" "b \<le> c"
  shows "drop a (take b xs) @ drop b (take c xs) = drop a (take c xs)"
proof -
  let ?ys = "take c xs"
  have 1: "take b xs = take b ?ys" using assms(2) by (simp add: min_def)
  have 2: "drop a (take b ?ys) = take (b - a) (drop a ?ys)" by (simp only: drop_take)
  have 3: "drop b ?ys = drop (b - a) (drop a ?ys)" using assms(1) by (simp only: drop_drop) simp
  show ?thesis unfolding 1 2 3 by (simp only: append_take_drop_id)
qed

lemma prune_all_sorted:
  "strictly_sorted l \<Longrightarrow> l \<noteq> [] \<Longrightarrow> 0 \<le> hd l \<Longrightarrow> last l \<le> int (length (global_ops p)) \<Longrightarrow>
     \<exists>qs. prune_all p l = Inr qs \<and> length qs = length l - 1 \<and>
          (\<forall>k<length l - 1. prune_program p (l ! k) (l ! Suc k) = Inr (qs ! k)) \<and>
          concat (map global_ops qs) = drop (nat (hd l)) (take (nat (last l)) (global_ops p))"
proof (induction l rule: strictly_sorted.induct)
  case (1 a b rest)
  from "1.prems" have ab: "a < b" and sr: "strictly_sorted (b # rest)" and a0: "0 \<le> a" by auto
  have bl: "b \<le> last (b # rest)" using sr by (rule strictly_sorted_le_last)
  have ln: "last (b # rest) \<le> int (length (global_ops p))" using "1.prems" by simp
  from "1.IH"[OF sr] a0 ab ln obtain qs where
    qs: "prune_all p (b # rest) = Inr qs" "length qs = length (b # rest) - 1"
      "\<forall>k<length (b # rest) - 1. prune_program p ((b # rest) ! k) ((b # rest) ! Suc k) = Inr (qs ! k)"
      "concat (map global_ops qs) = drop (nat b) (take (nat (last (b # rest))) (global_ops p))"
    by auto
  let ?q = "p\<lparr>global_block := (global_block p)\<lparr>
            blk_ops := drop (nat a) (take (nat b) (global_ops p)),
            blk_vars := filter (\<lambda>kv. fst kv \<in> arg_names_of (drop (nat a) (take (nat b) (global_ops p))))
                          (blk_vars (global_block p))\<rparr>\<rparr>"
  have q: "prune_program p a b = Inr ?q"
    using a0 ab bl ln by (intro prune_program_Inr) auto
  have gq: "global_ops ?q = drop (nat a) (take (nat b) (global_ops p))"
    by (simp add: global_ops_def)
  have c: "drop (nat a) (take (nat b) (global_ops p)) @
           drop (nat b) (take (nat (last (b # rest))) (global_ops p)) =
           drop (nat a) (take (nat (last (b # rest))) (global_ops p))"
    using a0 ab bl by (intro drop_take_append) auto
  have nth: "\<forall>k<length (a # b # rest) - 1.
      prune_program p ((a # b # rest) ! k) ((a # b # rest) ! Suc k) = Inr ((?q # qs) ! k)"
  proof (intro allI impI)
    fix k assume k: "k < length (a # b # rest) - 1"
    show "prune_program p ((a # b # rest) ! k) ((a # b # rest) ! Suc k) = Inr ((?q # qs) ! k)"
    proof (cases k)
      case 0
      then show ?thesis using q by simp
    next
      case (Suc k')
      then show ?thesis using qs(3) k by simp
    qed
  qed
  show ?case
    apply (rule exI[of _ "?q # qs"])
    using q qs(1,2,4) gq c nth by simp
qed simp_all

lemma normalize_indices_props:
  assumes "B \<noteq> []"
  shows "normalize_indices n B \<noteq> []" "hd (normalize_indices n B) = 0"
    "last (normalize_indices n B) = n"
  using assms by (auto simp: normalize_indices_def Let_def hd_append)

text \<open>
  C5 (amended). For indices that are valid after the negative ones are resolved,
  \<open>prune_program\<close> returns a program whose global block holds the operators of the range
  in their order and exactly those declarations of the source's global block whose names
  occur among the input and output names of the retained operators; the other blocks
  are unchanged. When the source declares every such name, the declared names are
  exactly that union.
\<close>

theorem C5_prune_program:
  "s = (if a < 0 then a + int (length (global_ops p)) else a) \<and>
   e = (if b < 0 then b + int (length (global_ops p)) else b) \<and>
   0 \<le> s \<and> s < e \<and> e \<le> int (length (global_ops p)) \<longrightarrow>
   (\<exists>q. prune_program p a b = Inr q \<and>
        global_ops q = drop (nat s) (take (nat e) (global_ops p)) \<and>
        blk_vars (global_block q) =
          filter (\<lambda>kv. fst kv \<in> arg_names_of (global_ops q)) (blk_vars (global_block p)) \<and>
        sub_blocks q = sub_blocks p \<and>
        (arg_names_of (global_ops q) \<subseteq> fst ` set (blk_vars (global_block p)) \<longrightarrow>
           fst ` set (blk_vars (global_block q)) = arg_names_of (global_ops q)))"
proof
  assume h: "s = (if a < 0 then a + int (length (global_ops p)) else a) \<and>
   e = (if b < 0 then b + int (length (global_ops p)) else b) \<and>
   0 \<le> s \<and> s < e \<and> e \<le> int (length (global_ops p))"
  let ?q = "p\<lparr>global_block := (global_block p)\<lparr>
            blk_ops := drop (nat s) (take (nat e) (global_ops p)),
            blk_vars := filter (\<lambda>kv. fst kv \<in> arg_names_of (drop (nat s) (take (nat e) (global_ops p))))
                          (blk_vars (global_block p))\<rparr>\<rparr>"
  have q: "prune_program p a b = Inr ?q"
    using h by (intro prune_program_Inr) blast+
  have g: "global_ops ?q = drop (nat s) (take (nat e) (global_ops p))"
    by (simp add: global_ops_def)
  have v: "blk_vars (global_block ?q) =
          filter (\<lambda>kv. fst kv \<in> arg_names_of (global_ops ?q)) (blk_vars (global_block p))"
    by (simp add: global_ops_def)
  have w: "arg_names_of (global_ops ?q) \<subseteq> fst ` set (blk_vars (global_block p)) \<longrightarrow>
           fst ` set (blk_vars (global_block ?q)) = arg_names_of (global_ops ?q)"
    unfolding v by auto
  show "\<exists>q. prune_program p a b = Inr q \<and>
        global_ops q = drop (nat s) (take (nat e) (global_ops p)) \<and>
        blk_vars (global_block q) =
          filter (\<lambda>kv. fst kv \<in> arg_names_of (global_ops q)) (blk_vars (global_block p)) \<and>
        sub_blocks q = sub_blocks p \<and>
        (arg_names_of (global_ops q) \<subseteq> fst ` set (blk_vars (global_block p)) \<longrightarrow>
           fst ` set (blk_vars (global_block q)) = arg_names_of (global_ops q))"
    using q g v w by (intro exI[of _ ?q]) simp
qed

lemma ex_prog_3_ops: "length (global_ops ex_prog_3) = 3"
  by (simp add: ex_prog_3_def ex_block_def global_ops_def)

theorem C5_prune_program_witness:
  "(\<exists>q. prune_program ex_prog_3 (- 2) 3 = Inr q \<and>
        global_ops q = [ex_op ''relu'' [''b''] [''c''], ex_op ''scale'' [''c''] [''d'']] \<and>
        map fst (blk_vars (global_block q)) = [''b'', ''c'', ''d''] \<and>
        fst ` set (blk_vars (global_block q)) = arg_names_of (global_ops q))"
proof -
  have n: "arg_names_of [ex_op ''relu'' [''b''] [''c''], ex_op ''scale'' [''c''] [''d'']]
      = {''b'', ''c'', ''d''}"
    by (auto simp: arg_names_of_def ex_op_def input_arg_names_def output_arg_names_def)
  have d: "drop (nat 1) (take (nat 3) (global_ops ex_prog_3))
      = [ex_op ''relu'' [''b''] [''c''], ex_op ''scale'' [''c''] [''d'']]"
    by (simp add: ex_prog_3_def ex_block_def global_ops_def)
  have v: "blk_vars (global_block ex_prog_3) = [(''a'', ex_var ''a''), (''b'', ex_var ''b''), (''c'', ex_var ''c''),
        (''d'', ex_var ''d''), (''e'', ex_var ''e'')]"
    by (simp add: ex_prog_3_def ex_block_def)
  have pre: "(1::int) = (if (- 2::int) < 0 then - 2 + int (length (global_ops ex_prog_3)) else - 2) \<and>
   (3::int) = (if (3::int) < 0 then 3 + int (length (global_ops ex_prog_3)) else 3) \<and>
   (0::int) \<le> 1 \<and> (1::int) < 3 \<and> 3 \<le> int (length (global_ops ex_prog_3))"
    by (simp add: ex_prog_3_ops)
  from C5_prune_program[of 1 "- 2" ex_prog_3 3 3, rule_format, OF pre]
  obtain q where q: "prune_program ex_prog_3 (- 2) 3 = Inr q"
    "global_ops q = drop (nat 1) (take (nat 3) (global_ops ex_prog_3))"
    "blk_vars (global_block q) =
          filter (\<lambda>kv. fst kv \<in> arg_names_of (global_ops q)) (blk_vars (global_block ex_prog_3))"
    "arg_names_of (global_ops q) \<subseteq> fst ` set (blk_vars (global_block ex_prog_3)) \<longrightarrow>
           fst ` set (blk_vars (global_block q)) = arg_names_of (global_ops q)"
    by blast
  have g: "global_ops q = [ex_op ''relu'' [''b''] [''c''], ex_op ''scale'' [''c''] [''d'']]"
    using q(2) d by simp
  have 1: "map fst (blk_vars (global_block q)) = [''b'', ''c'', ''d'']"
    unfolding q(3) g n v by simp
  have 2: "fst ` set (blk_vars (global_block q)) = arg_names_of (global_ops q)"
    using q(4) unfolding g n v by simp
  show ?thesis using q(1) g 1 2 by simp
qed

text \<open>
  The claim as stated fails on a program whose operator names a variable that the block
  does not declare: the name is in the union and is not declared in the result.
\<close>

theorem C5_counterexample:
  "prune_program ex_prog_undeclared 0 1 = Inr ex_prog_undeclared \<and>
   fst ` set (blk_vars (global_block ex_prog_undeclared)) = {''a''} \<and>
   arg_names_of (global_ops ex_prog_undeclared) = {''a'', ''@EMPTY@''} \<and>
   fst ` set (blk_vars (global_block ex_prog_undeclared))
     \<noteq> arg_names_of (global_ops ex_prog_undeclared)"
proof -
  have n: "arg_names_of (global_ops ex_prog_undeclared) = {''a'', ''@EMPTY@''}"
    by (auto simp: arg_names_of_def ex_op_def input_arg_names_def output_arg_names_def
        ex_prog_undeclared_def ex_block_def global_ops_def)
  have v: "fst ` set (blk_vars (global_block ex_prog_undeclared)) = {''a''}"
    by (simp add: ex_prog_undeclared_def ex_block_def)
  have l: "length (global_ops ex_prog_undeclared) = 1"
    by (simp add: ex_prog_undeclared_def ex_block_def global_ops_def)
  have p: "prune_program ex_prog_undeclared 0 1 = Inr ex_prog_undeclared"
    unfolding prune_program_Inr[of 0 0 ex_prog_undeclared 1 1, simplified l, simplified]
    by (simp add: ex_prog_undeclared_def ex_block_def global_ops_def arg_names_of_def
        ex_op_def input_arg_names_def output_arg_names_def)
  show ?thesis using n v p by auto
qed

lemma normalize_indices_eq:
  assumes "B \<noteq> []"
  shows "normalize_indices n B =
     (if hd (map (\<lambda>i. if i < 0 then i + n else i) B) = 0 then [] else [0]) @
     map (\<lambda>i. if i < 0 then i + n else i) B @
     (if last (map (\<lambda>i. if i < 0 then i + n else i) B) = n then [] else [n])"
proof -
  have m: "map (\<lambda>idx. if idx \<ge> 0 then idx else idx + n) B = map (\<lambda>i. if i < 0 then i + n else i) B"
    by (rule map_cong) auto
  show ?thesis using assms unfolding normalize_indices_def Let_def m by auto
qed

lemma split_program_cases:
  assumes "B \<noteq> []" "global_ops p \<noteq> []"
  shows "split_program p B =
     (if \<not> strictly_sorted (normalize_indices (int (length (global_ops p))) B)
      then Inl (AssertionError ''op_indices must be strictly sorted'')
      else case prune_all p (normalize_indices (int (length (global_ops p))) B) of
             Inl e \<Rightarrow> Inl e
           | Inr progs \<Rightarrow>
               Inr (progs, map get_inputs_of_program progs,
                    valid_outputs (map get_inputs_of_program progs)
                      (map (\<lambda>q. list_to_ordered_dict (get_outputs_of_program q) []) progs)))"
  using assms by (simp add: split_program_def Let_def split: sum.splits)

lemma split_program_Inr:
  assumes "split_program p B = Inr (progs, ins, outs)"
  shows "B \<noteq> []" "global_ops p \<noteq> []"
    "strictly_sorted (normalize_indices (int (length (global_ops p))) B)"
    "prune_all p (normalize_indices (int (length (global_ops p))) B) = Inr progs"
    "ins = map get_inputs_of_program progs"
    "outs = valid_outputs ins (map (\<lambda>q. list_to_ordered_dict (get_outputs_of_program q) []) progs)"
  using assms by (auto simp: split_program_def Let_def split: if_splits sum.splits)

lemma prune_all_normalized:
  assumes "B \<noteq> []" "strictly_sorted (normalize_indices (int (length (global_ops p))) B)"
  shows "\<exists>qs. prune_all p (normalize_indices (int (length (global_ops p))) B) = Inr qs \<and>
          length qs = length (normalize_indices (int (length (global_ops p))) B) - 1 \<and>
          (\<forall>k<length (normalize_indices (int (length (global_ops p))) B) - 1.
             prune_program p (normalize_indices (int (length (global_ops p))) B ! k)
               (normalize_indices (int (length (global_ops p))) B ! Suc k) = Inr (qs ! k)) \<and>
          concat (map global_ops qs) = global_ops p"
proof -
  let ?N = "normalize_indices (int (length (global_ops p))) B"
  note np = normalize_indices_props[OF assms(1), of "int (length (global_ops p))"]
  from prune_all_sorted[OF assms(2) np(1), of p] np(2,3)
  show ?thesis by simp
qed

text \<open>
  C6. For a non-empty program and a non-empty list of boundaries, \<open>split_program\<close> works
  on the list \<open>N\<close> obtained by adding the operator count to the negative indices, putting
  0 in front unless the first index is 0 and the operator count behind unless the last
  index is the operator count. When \<open>N\<close> is not strictly increasing the assertion fails;
  otherwise the result has one sub-program for each pair of neighbours of \<open>N\<close>, pruned
  from the program at that pair.
\<close>

theorem C6_split_boundaries:
  "B \<noteq> [] \<and> global_ops p \<noteq> [] \<and> n = int (length (global_ops p)) \<and>
   R = map (\<lambda>i. if i < 0 then i + n else i) B \<and>
   N = (if hd R = 0 then [] else [0]) @ R @ (if last R = n then [] else [n]) \<longrightarrow>
     (\<not> sorted_wrt (<) N \<longrightarrow>
        split_program p B = Inl (AssertionError ''op_indices must be strictly sorted'')) \<and>
     (sorted_wrt (<) N \<longrightarrow>
        (\<exists>progs ins outs. split_program p B = Inr (progs, ins, outs) \<and>
           length progs = length N - 1 \<and>
           (\<forall>k<length N - 1. prune_program p (N ! k) (N ! Suc k) = Inr (progs ! k))))"
proof (intro impI)
  assume h: "B \<noteq> [] \<and> global_ops p \<noteq> [] \<and> n = int (length (global_ops p)) \<and>
   R = map (\<lambda>i. if i < 0 then i + n else i) B \<and>
   N = (if hd R = 0 then [] else [0]) @ R @ (if last R = n then [] else [n])"
  then have B: "B \<noteq> []" and p: "global_ops p \<noteq> []" by blast+
  from h have N: "normalize_indices (int (length (global_ops p))) B = N"
    using normalize_indices_eq[OF B, of n] by simp
  note c = split_program_cases[OF B p, unfolded N]
  show "(\<not> sorted_wrt (<) N \<longrightarrow>
        split_program p B = Inl (AssertionError ''op_indices must be strictly sorted'')) \<and>
     (sorted_wrt (<) N \<longrightarrow>
        (\<exists>progs ins outs. split_program p B = Inr (progs, ins, outs) \<and>
           length progs = length N - 1 \<and>
           (\<forall>k<length N - 1. prune_program p (N ! k) (N ! Suc k) = Inr (progs ! k))))"
  proof (intro conjI impI)
    assume "\<not> sorted_wrt (<) N"
    then show "split_program p B = Inl (AssertionError ''op_indices must be strictly sorted'')"
      using c by (simp add: strictly_sorted_iff)
  next
    assume "sorted_wrt (<) N"
    then have s: "strictly_sorted N" by (simp add: strictly_sorted_iff)
    from prune_all_normalized[OF B, of p, unfolded N, OF s] obtain qs where
      qs: "prune_all p N = Inr qs" "length qs = length N - 1"
        "\<forall>k<length N - 1. prune_program p (N ! k) (N ! Suc k) = Inr (qs ! k)"
      by blast
    show "\<exists>progs ins outs. split_program p B = Inr (progs, ins, outs) \<and>
           length progs = length N - 1 \<and>
           (\<forall>k<length N - 1. prune_program p (N ! k) (N ! Suc k) = Inr (progs ! k))"
      using c s qs by simp
  qed
qed

lemma normalize_indices_id:
  assumes "B \<noteq> []" "hd B = 0" "last B = n" "sorted_wrt (<) B"
  shows "normalize_indices n B = B"
proof -
  have "\<forall>x \<in> set B. 0 \<le> x"
    using assms(1,2,4) by (cases B) (auto simp: less_imp_le)
  then have "map (\<lambda>i. if i < 0 then i + n else i) B = B"
    by (induction B) auto
  then show ?thesis using assms(1-3) by (simp add: normalize_indices_eq)
qed

text \<open>
  C3. Whenever \<open>split_program\<close> returns, the operators of its sub-programs, concatenated
  in order, are the operators of \<open>prune_program(P, 0, op_count)\<close>; and it does return for
  a non-empty program and a boundary list that starts with 0, ends with the operator
  count and is strictly increasing, with one sub-program per pair of neighbours.
\<close>

theorem C3_split_round_trip:
  "(split_program p B = Inr (progs, ins, outs) \<longrightarrow>
      (\<exists>p'. prune_program p 0 (int (length (global_ops p))) = Inr p' \<and>
            concat (map global_ops progs) = global_ops p')) \<and>
   (global_ops p \<noteq> [] \<and> B \<noteq> [] \<and> hd B = 0 \<and> last B = int (length (global_ops p)) \<and>
    sorted_wrt (<) B \<longrightarrow>
      (\<exists>progs ins outs. split_program p B = Inr (progs, ins, outs) \<and>
         length progs = length B - 1 \<and>
         (\<forall>k<length B - 1. prune_program p (B ! k) (B ! Suc k) = Inr (progs ! k))))"
proof (intro conjI impI)
  assume a: "split_program p B = Inr (progs, ins, outs)"
  note s = split_program_Inr[OF a]
  from prune_all_normalized[OF s(1,3)] s(4)
  have c: "concat (map global_ops progs) = global_ops p" by auto
  let ?n = "int (length (global_ops p))"
  have "0 < ?n" using s(2) by simp
  then have "prune_program p 0 ?n =
     Inr (p\<lparr>global_block := (global_block p)\<lparr>
            blk_ops := drop (nat 0) (take (nat ?n) (global_ops p)),
            blk_vars := filter (\<lambda>kv. fst kv \<in> arg_names_of (drop (nat 0) (take (nat ?n) (global_ops p))))
                          (blk_vars (global_block p))\<rparr>\<rparr>)"
    by (intro prune_program_Inr) auto
  then show "\<exists>p'. prune_program p 0 ?n = Inr p' \<and> concat (map global_ops progs) = global_ops p'"
    using c by (simp add: global_ops_def)
next
  assume h: "global_ops p \<noteq> [] \<and> B \<noteq> [] \<and> hd B = 0 \<and> last B = int (length (global_ops p)) \<and>
    sorted_wrt (<) B"
  then have B: "B \<noteq> []" and p: "global_ops p \<noteq> []" by blast+
  from h have N: "normalize_indices (int (length (global_ops p))) B = B"
    by (intro normalize_indices_id) blast+
  from h have s: "strictly_sorted B" by (simp add: strictly_sorted_iff)
  from prune_all_normalized[OF B, of p, unfolded N, OF s] obtain qs where
      qs: "prune_all p B = Inr qs" "length qs = length B - 1"
        "\<forall>k<length B - 1. prune_program p (B ! k) (B ! Suc k) = Inr (qs ! k)"
      by blast
  show "\<exists>progs ins outs. split_program p B = Inr (progs, ins, outs) \<and>
         length progs = length B - 1 \<and>
         (\<forall>k<length B - 1. prune_program p (B ! k) (B ! Suc k) = Inr (progs ! k))"
    using split_program_cases[OF B p, unfolded N] s qs by simp
qed

theorem C6_split_boundaries_witness:
  "(\<exists>progs ins outs. split_program ex_prog_3 [- 2] = Inr (progs, ins, outs) \<and>
       length progs = 2 \<and>
       prune_program ex_prog_3 0 1 = Inr (progs ! 0) \<and>
       prune_program ex_prog_3 1 3 = Inr (progs ! 1)) \<and>
   split_program ex_prog_3 [2, 1] = Inl (AssertionError ''op_indices must be strictly sorted'')"
proof -
  have pre1: "[- 2] \<noteq> [] \<and> global_ops ex_prog_3 \<noteq> [] \<and> (3::int) = int (length (global_ops ex_prog_3)) \<and>
   [1::int] = map (\<lambda>i. if i < 0 then i + 3 else i) [- 2] \<and>
   [0, 1, 3::int] = (if hd [1::int] = 0 then [] else [0]) @ [1] @ (if last [1::int] = 3 then [] else [3])"
    by (simp add: ex_prog_3_def ex_block_def global_ops_def)
  have s1: "sorted_wrt (<) [0, 1, 3::int]" by simp
  from C6_split_boundaries[of "[- 2]" ex_prog_3 3 "[1]" "[0, 1, 3]", rule_format, OF pre1]
  have "\<exists>progs ins outs. split_program ex_prog_3 [- 2] = Inr (progs, ins, outs) \<and>
           length progs = length [0, 1, 3::int] - 1 \<and>
           (\<forall>k<length [0, 1, 3::int] - 1.
              prune_program ex_prog_3 ([0, 1, 3] ! k) ([0, 1, 3] ! Suc k) = Inr (progs ! k))"
    using s1 by blast
  then obtain progs ins outs where
    a: "split_program ex_prog_3 [- 2] = Inr (progs, ins, outs)" "length progs = 2"
    and k: "\<forall>k<2. prune_program ex_prog_3 ([0, 1, 3] ! k) ([0, 1, 3] ! Suc k) = Inr (progs ! k)"
    by auto
  from k[rule_format, of 0] k[rule_format, of 1]
  have b: "prune_program ex_prog_3 0 1 = Inr (progs ! 0)"
    "prune_program ex_prog_3 1 3 = Inr (progs ! 1)" by simp_all
  have pre2: "[2, 1] \<noteq> [] \<and> global_ops ex_prog_3 \<noteq> [] \<and> (3::int) = int (length (global_ops ex_prog_3)) \<and>
   [2, 1::int] = map (\<lambda>i. if i < 0 then i + 3 else i) [2, 1] \<and>
   [0, 2, 1, 3::int] = (if hd [2, 1::int] = 0 then [] else [0]) @ [2, 1] @ (if last [2, 1::int] = 3 then [] else [3])"
    by (simp add: ex_prog_3_def ex_block_def global_ops_def)
  have s2: "\<not> sorted_wrt (<) [0, 2, 1, 3::int]" by simp
  from C6_split_boundaries[of "[2, 1]" ex_prog_3 3 "[2, 1]" "[0, 2, 1, 3]", rule_format, OF pre2]
  have c: "split_program ex_prog_3 [2, 1] = Inl (AssertionError ''op_indices must be strictly sorted'')"
    using s2 by blast
  show ?thesis using a b c by blast
qed

theorem C3_split_round_trip_witness:
  "(\<exists>progs ins outs p'. split_program ex_prog_3 [0, 1, 3] = Inr (progs, ins, outs) \<and>
      length progs = 2 \<and>
      prune_program ex_prog_3 0 (int (length (global_ops ex_prog_3))) = Inr p' \<and>
      concat (map global_ops progs) = global_ops p')"
proof -
  have pre: "global_ops ex_prog_3 \<noteq> [] \<and> [0, 1, 3] \<noteq> [] \<and> hd [0, 1, 3::int] = 0 \<and>
     last [0, 1, 3] = int (length (global_ops ex_prog_3)) \<and> sorted_wrt (<) [0, 1, 3::int]"
    by (simp add: ex_prog_3_def ex_block_def global_ops_def)
  from C3_split_round_trip[of ex_prog_3 "[0, 1, 3]", THEN conjunct2, rule_format, OF pre]
  obtain progs ins outs where
    a: "split_program ex_prog_3 [0, 1, 3] = Inr (progs, ins, outs)" "length progs = 2"
    by auto
  from C3_split_round_trip[of ex_prog_3 "[0, 1, 3]" progs ins outs, THEN conjunct1, rule_format, OF a(1)]
  obtain p' where "prune_program ex_prog_3 0 (int (length (global_ops ex_prog_3))) = Inr p'"
    "concat (map global_ops progs) = global_ops p'" by blast
  with a show ?thesis by blast
qed

text \<open>The input and output names of a sub-program, and the second pass of the split.\<close>

lemma set_dict_add: "set (dict_add k d) = insert k (set d)"
  by (auto simp: dict_add_def)

lemma set_list_to_ordered_dict: "set (list_to_ordered_dict xs d) = set xs \<union> set d"
  by (induction xs arbitrary: d) (auto simp: set_dict_add)

lemma set_outputs_acc:
  "set (fold (\<lambda>op output_vars. list_to_ordered_dict (output_arg_names op) output_vars) ops d)
     = set d \<union> written_by ops"
  by (induction ops arbitrary: d) (auto simp: written_by_def set_list_to_ordered_dict)

lemma set_get_outputs_of_program:
  "set (get_outputs_of_program q) = written_by (global_ops q)"
  by (simp add: get_outputs_of_program_def set_outputs_acc)

lemma visit_inputs_fst: "fst (visit_inputs names (vis, acc)) = vis \<union> set names"
  unfolding visit_inputs_def
  by (induction names arbitrary: vis acc) (auto split: prod.splits)

lemma visit_inputs_snd:
  "set (snd (visit_inputs names (vis, acc))) = set acc \<union> (set names - vis)"
  unfolding visit_inputs_def
  by (induction names arbitrary: vis acc) (auto split: prod.splits)

lemma fold_visit_op_set:
  "set (snd (fold visit_op ops (vis, acc))) =
     set acc \<union> {x. x \<notin> vis \<and> first_use_is_read x ops}"
proof (induction ops arbitrary: vis acc)
  case Nil
  then show ?case by simp
next
  case (Cons op ops)
  obtain vis1 acc1 where v: "visit_inputs (input_arg_names op) (vis, acc) = (vis1, acc1)"
    by (cases "visit_inputs (input_arg_names op) (vis, acc)") auto
  have f: "vis1 = vis \<union> set (input_arg_names op)"
    using visit_inputs_fst[of "input_arg_names op" vis acc] v by simp
  have s: "set acc1 = set acc \<union> (set (input_arg_names op) - vis)"
    using visit_inputs_snd[of "input_arg_names op" vis acc] v by simp
  have e: "fold visit_op (op # ops) (vis, acc) =
          fold visit_op ops (vis1 \<union> set (output_arg_names op), acc1)"
    by (simp add: visit_op_def v)
  show ?case unfolding e Cons.IH s unfolding f by auto
qed

lemma get_inputs_iff:
  "x \<in> set (get_inputs_of_program q) \<longleftrightarrow> first_use_is_read x (global_ops q)"
  by (simp add: get_inputs_of_program_def fold_visit_op_set)

lemma first_use_is_read_arg: "first_use_is_read x ops \<Longrightarrow> x \<in> arg_names_of ops"
  by (induction ops) (auto simp: arg_names_of_def)

lemma written_by_arg: "written_by ops \<subseteq> arg_names_of ops"
  by (auto simp: arg_names_of_def written_by_def)

text \<open>The inner loop over \<open>reversed(range(i))\<close>: the nearest earlier index that satisfies P.\<close>

lemma find_rev_upt:
  "find P (rev [0 ..< i]) = Some j \<longleftrightarrow> j < i \<and> P j \<and> (\<forall>k. j < k \<and> k < i \<longrightarrow> \<not> P k)"
proof (induction i)
  case 0
  then show ?case by simp
next
  case (Suc i)
  show ?case
  proof (cases "P i")
    case True
    then show ?thesis
      by (auto simp: less_Suc_eq)
  next
    case False
    then show ?thesis using Suc
      by (auto simp: less_Suc_eq)
  qed
qed

lemma attribute_input_length:
  "length (attribute_input outs i x V) = length V"
  by (simp add: attribute_input_def split: option.splits)

lemma attribute_input_nth:
  assumes "i \<le> length V" "j < length V"
  shows "set (attribute_input outs i x V ! j) =
           set (V ! j) \<union> (if nearest_writer outs i x j then {x} else {})"
proof (cases "find (\<lambda>j. x \<in> set (outs ! j)) (rev [0 ..< i])")
  case None
  then have "\<not> nearest_writer outs i x j"
    using find_rev_upt[of "\<lambda>j. x \<in> set (outs ! j)" i j] by (simp add: nearest_writer_def)
  with None show ?thesis by (simp add: attribute_input_def)
next
  case (Some j')
  then have n: "nearest_writer outs i x j'"
    using find_rev_upt[of "\<lambda>j. x \<in> set (outs ! j)" i j'] by (simp add: nearest_writer_def)
  have u: "nearest_writer outs i x j \<longleftrightarrow> j = j'"
    using Some find_rev_upt[of "\<lambda>j. x \<in> set (outs ! j)" i j] by (auto simp: nearest_writer_def)
  have "j' < length V" using n assms(1) by (simp add: nearest_writer_def)
  then show ?thesis using Some u assms(2)
    by (auto simp: attribute_input_def set_dict_add nth_list_update)
qed

lemma attribute_input_same:
  assumes "i \<le> j"
  shows "attribute_input outs i x V ! j = V ! j"
proof (cases "find (\<lambda>j. x \<in> set (outs ! j)) (rev [0 ..< i])")
  case None
  then show ?thesis by (simp add: attribute_input_def)
next
  case (Some j')
  then have "j' < i"
    using find_rev_upt[of "\<lambda>j. x \<in> set (outs ! j)" i j'] by simp
  with assms Some show ?thesis by (simp add: attribute_input_def)
qed

lemma fold_attribute_length:
  "length (fold (attribute_input outs i) xs V) = length V"
  by (induction xs arbitrary: V) (auto simp: attribute_input_length)

lemma fold_attribute_nth:
  assumes "i \<le> length V" "j < length V"
  shows "set (fold (attribute_input outs i) xs V ! j) =
           set (V ! j) \<union> {x \<in> set xs. nearest_writer outs i x j}"
  using assms
proof (induction xs arbitrary: V)
  case Nil
  then show ?case by simp
next
  case (Cons x xs)
  have l: "length (attribute_input outs i x V) = length V" by (rule attribute_input_length)
  from Cons.IH[of "attribute_input outs i x V"] Cons.prems l
  have "set (fold (attribute_input outs i) xs (attribute_input outs i x V) ! j) =
          set (attribute_input outs i x V ! j) \<union> {x \<in> set xs. nearest_writer outs i x j}"
    by simp
  then show ?case using attribute_input_nth[OF Cons.prems, of outs x] by auto
qed

lemma fold_attribute_same:
  "i \<le> j \<Longrightarrow> fold (attribute_input outs i) xs V ! j = V ! j"
  by (induction xs arbitrary: V) (auto simp: attribute_input_same)

text \<open>The outer loop, over any list of indices \<open>i\<close> that are within the list.\<close>

lemma outer_fold_length:
  "length (fold (\<lambda>i valid. fold (attribute_input outs i) (ins ! i) valid) is V) = length V"
  by (induction "is" arbitrary: V) (auto simp: fold_attribute_length)

lemma outer_fold_nth:
  assumes "\<forall>i \<in> set is. i \<le> length V" "j < length V"
  shows "set (fold (\<lambda>i valid. fold (attribute_input outs i) (ins ! i) valid) is V ! j) =
           set (V ! j) \<union> {x. \<exists>i \<in> set is. x \<in> set (ins ! i) \<and> nearest_writer outs i x j}"
  using assms
proof (induction "is" arbitrary: V)
  case Nil
  then show ?case by simp
next
  case (Cons i "is")
  let ?V1 = "fold (attribute_input outs i) (ins ! i) V"
  have l: "length ?V1 = length V" by (rule fold_attribute_length)
  have i: "i \<le> length V" using Cons.prems(1) by simp
  from Cons.IH[of ?V1] Cons.prems l
  have "set (fold (\<lambda>i valid. fold (attribute_input outs i) (ins ! i) valid) is ?V1 ! j) =
          set (?V1 ! j) \<union> {x. \<exists>i \<in> set is. x \<in> set (ins ! i) \<and> nearest_writer outs i x j}"
    by simp
  then show ?case using fold_attribute_nth[OF i Cons.prems(2), of outs "ins ! i"] by auto
qed

lemma outer_fold_same:
  "\<forall>i \<in> set is. i \<le> j \<Longrightarrow>
     fold (\<lambda>i valid. fold (attribute_input outs i) (ins ! i) valid) is V ! j = V ! j"
  by (induction "is" arbitrary: V) (auto simp: fold_attribute_same)

lemma valid_outputs_length: "length (valid_outputs ins outs) = length outs"
  by (simp add: valid_outputs_def Let_def outer_fold_length)

lemma valid_outputs_last:
  assumes "outs \<noteq> []"
  shows "valid_outputs ins outs ! (length outs - 1) = outs ! (length outs - 1)"
proof -
  have "\<forall>i \<in> set [1 ..< length outs]. i \<le> length outs - 1" by auto
  from outer_fold_same[OF this] assms show ?thesis
    by (simp add: valid_outputs_def Let_def)
qed

lemma valid_outputs_nth:
  assumes "j < length outs - 1"
  shows "set (valid_outputs ins outs ! j) =
           {x. \<exists>i. j < i \<and> i < length outs \<and> x \<in> set (ins ! i) \<and> nearest_writer outs i x j}"
proof -
  let ?init = "(replicate (length outs) [])[length outs - 1 := outs ! (length outs - 1)]"
  have a: "\<forall>i \<in> set [1 ..< length outs]. i \<le> length ?init" by auto
  have b: "j < length ?init" using assms by simp
  have c: "?init ! j = []" using assms by simp
  have "set (valid_outputs ins outs ! j) =
      {x. \<exists>i \<in> set [1 ..< length outs]. x \<in> set (ins ! i) \<and> nearest_writer outs i x j}"
    unfolding valid_outputs_def Let_def outer_fold_nth[OF a b] c by simp
  also have "\<dots> = {x. \<exists>i. j < i \<and> i < length outs \<and> x \<in> set (ins ! i) \<and> nearest_writer outs i x j}"
    by (auto simp: nearest_writer_def)
  finally show ?thesis .
qed

lemma prune_all_ops:
  "strictly_sorted l \<Longrightarrow> l \<noteq> [] \<Longrightarrow> 0 \<le> hd l \<Longrightarrow> last l \<le> int (length (global_ops p)) \<Longrightarrow>
     prune_all p l = Inr qs \<Longrightarrow> k < length l - 1 \<Longrightarrow>
     global_ops (qs ! k) = drop (nat (l ! k)) (take (nat (l ! Suc k)) (global_ops p))"
proof (induction l arbitrary: qs k rule: strictly_sorted.induct)
  case (1 a b rest)
  from "1.prems" have ab: "a < b" and sr: "strictly_sorted (b # rest)" and a0: "0 \<le> a" by auto
  have bl: "b \<le> last (b # rest)" using sr by (rule strictly_sorted_le_last)
  have ln: "last (b # rest) \<le> int (length (global_ops p))" using "1.prems" by simp
  let ?q = "p\<lparr>global_block := (global_block p)\<lparr>
            blk_ops := drop (nat a) (take (nat b) (global_ops p)),
            blk_vars := filter (\<lambda>kv. fst kv \<in> arg_names_of (drop (nat a) (take (nat b) (global_ops p))))
                          (blk_vars (global_block p))\<rparr>\<rparr>"
  have q: "prune_program p a b = Inr ?q"
    using a0 ab bl ln by (intro prune_program_Inr) auto
  from "1.prems"(5) q obtain qs' where
    qs': "prune_all p (b # rest) = Inr qs'" and qs: "qs = ?q # qs'"
    by (auto split: sum.splits)
  show ?case
  proof (cases k)
    case 0
    then show ?thesis using qs by (simp add: global_ops_def)
  next
    case (Suc k')
    then have "k' < length (b # rest) - 1" using "1.prems"(6) by simp
    from "1.IH"[OF sr _ _ ln qs' this] a0 ab
    show ?thesis using Suc qs by simp
  qed
qed simp_all

lemma split_program_ops:
  assumes "split_program p B = Inr (progs, ins, vouts)"
    and "N = normalize_indices (int (length (global_ops p))) B"
  shows "length progs = length N - 1"
    and "k < length N - 1 \<Longrightarrow>
         global_ops (progs ! k) = drop (nat (N ! k)) (take (nat (N ! Suc k)) (global_ops p))"
proof -
  note s = split_program_Inr[OF assms(1)]
  note np = normalize_indices_props[OF s(1), of "int (length (global_ops p))"]
  from prune_all_normalized[OF s(1,3)] s(4) show "length progs = length N - 1"
    unfolding assms(2) by auto
  assume "k < length N - 1"
  then show "global_ops (progs ! k) = drop (nat (N ! k)) (take (nat (N ! Suc k)) (global_ops p))"
    unfolding assms(2)
    using prune_all_ops[OF s(3) np(1) _ _ s(4), of k] np(2,3) by simp
qed

lemma split_program_valid_outputs:
  assumes "split_program p B = Inr (progs, ins, vouts)"
  shows "length ins = length progs" "length vouts = length progs"
    and "j < length progs \<Longrightarrow>
           x \<in> set (ins ! j) \<longleftrightarrow> first_use_is_read x (global_ops (progs ! j))"
    and "vouts ! (length progs - 1) =
           list_to_ordered_dict (get_outputs_of_program (progs ! (length progs - 1))) []"
    and "i < length progs - 1 \<Longrightarrow>
           x \<in> set (vouts ! i) \<longleftrightarrow>
             x \<in> written_by (global_ops (progs ! i)) \<and>
             (\<exists>j. i < j \<and> j < length progs \<and> x \<in> set (ins ! j) \<and>
                  (\<forall>k. i < k \<and> k < j \<longrightarrow> x \<notin> written_by (global_ops (progs ! k))))"
proof -
  note s = split_program_Inr[OF assms]
  let ?outs = "map (\<lambda>q. list_to_ordered_dict (get_outputs_of_program q) []) progs"
  show li: "length ins = length progs" using s(5) by simp
  show lv: "length vouts = length progs" using s(6) by (simp add: valid_outputs_length)
  have O: "\<And>k. k < length progs \<Longrightarrow> set (?outs ! k) = written_by (global_ops (progs ! k))"
    by (simp add: set_list_to_ordered_dict set_get_outputs_of_program)
  {
    assume "j < length progs"
    then show "x \<in> set (ins ! j) \<longleftrightarrow> first_use_is_read x (global_ops (progs ! j))"
      using s(5) by (simp add: get_inputs_iff)
  }
  have ne: "progs \<noteq> []"
  proof -
    note np = normalize_indices_props[OF s(1), of "int (length (global_ops p))"]
    have "hd (normalize_indices (int (length (global_ops p))) B) \<noteq>
          last (normalize_indices (int (length (global_ops p))) B)"
      using np(2,3) s(2) by simp
    then have "length (normalize_indices (int (length (global_ops p))) B) \<ge> 2"
      using np(1)
      by (cases "normalize_indices (int (length (global_ops p))) B" rule: strictly_sorted.cases)
         auto
    with split_program_ops(1)[OF assms refl] show ?thesis by auto
  qed
  show "vouts ! (length progs - 1) =
           list_to_ordered_dict (get_outputs_of_program (progs ! (length progs - 1))) []"
    using valid_outputs_last[of ?outs ins] ne s(6) by simp
  {
    assume i: "i < length progs - 1"
    then have i': "i < length ?outs - 1" by simp
    have "x \<in> set (vouts ! i) \<longleftrightarrow>
        (\<exists>j. i < j \<and> j < length progs \<and> x \<in> set (ins ! j) \<and> nearest_writer ?outs j x i)"
      unfolding s(6) valid_outputs_nth[OF i'] by simp
    also have "\<dots> \<longleftrightarrow>
         x \<in> written_by (global_ops (progs ! i)) \<and>
             (\<exists>j. i < j \<and> j < length progs \<and> x \<in> set (ins ! j) \<and>
                  (\<forall>k. i < k \<and> k < j \<longrightarrow> x \<notin> written_by (global_ops (progs ! k))))"
    proof -
      have "\<And>j. i < j \<Longrightarrow> j < length progs \<Longrightarrow>
          nearest_writer ?outs j x i \<longleftrightarrow>
            x \<in> written_by (global_ops (progs ! i)) \<and>
            (\<forall>k. i < k \<and> k < j \<longrightarrow> x \<notin> written_by (global_ops (progs ! k)))"
      proof -
        fix j assume j: "i < j" "j < length progs"
        have a: "set (?outs ! i) = written_by (global_ops (progs ! i))"
          using O[of i] j by simp
        have b: "\<And>k. k < j \<Longrightarrow> set (?outs ! k) = written_by (global_ops (progs ! k))"
          using O j by simp
        show "nearest_writer ?outs j x i \<longleftrightarrow>
            x \<in> written_by (global_ops (progs ! i)) \<and>
            (\<forall>k. i < k \<and> k < j \<longrightarrow> x \<notin> written_by (global_ops (progs ! k)))"
          unfolding nearest_writer_def using j(1) a b by auto
      qed
      then show ?thesis by blast
    qed
    finally show "x \<in> set (vouts ! i) \<longleftrightarrow>
             x \<in> written_by (global_ops (progs ! i)) \<and>
             (\<exists>j. i < j \<and> j < length progs \<and> x \<in> set (ins ! j) \<and>
                  (\<forall>k. i < k \<and> k < j \<longrightarrow> x \<notin> written_by (global_ops (progs ! k))))" .
  }
qed

text \<open>
  C4 (amended). In a result of \<open>split_program\<close> the input names of a sub-program are the
  names whose first use in it is a read, and for every sub-program \<open>i\<close> before the last
  one, a name is in the valid outputs of \<open>i\<close> exactly when \<open>i\<close> writes it and it is an
  input name of some later sub-program \<open>j\<close> with no sub-program strictly between \<open>i\<close> and
  \<open>j\<close> writing it. So every valid output of \<open>i\<close> is an input of a later sub-program, and
  each one is needed: \<open>i\<close> is the nearest earlier writer of that input. For a program of
  10 operators split at [4, 7] the sub-programs have 4, 3 and 3 operators, and a name
  that sub-program 0 writes, whose first use in sub-program 2 is a read and that
  sub-program 1 neither reads nor writes, is in the valid outputs of sub-program 0 and
  the inputs of sub-program 2, and in neither the inputs nor the valid outputs of
  sub-program 1.
\<close>

theorem C4_valid_outputs:
  "split_program p B = Inr (progs, ins, vouts) \<longrightarrow>
     length ins = length progs \<and> length vouts = length progs \<and>
     (\<forall>j x. j < length progs \<longrightarrow>
        (x \<in> set (ins ! j) \<longleftrightarrow> first_use_is_read x (global_ops (progs ! j)))) \<and>
     (\<forall>i x. i < length progs - 1 \<longrightarrow>
        (x \<in> set (vouts ! i) \<longleftrightarrow>
           x \<in> written_by (global_ops (progs ! i)) \<and>
           (\<exists>j. i < j \<and> j < length progs \<and> x \<in> set (ins ! j) \<and>
                (\<forall>k. i < k \<and> k < j \<longrightarrow> x \<notin> written_by (global_ops (progs ! k)))))) \<and>
     (length (global_ops p) = 10 \<and> B = [4, 7] \<longrightarrow>
        map (\<lambda>q. length (global_ops q)) progs = [4, 3, 3] \<and>
        (\<forall>x. x \<in> written_by (global_ops (progs ! 0)) \<and>
             first_use_is_read x (global_ops (progs ! 2)) \<and>
             x \<notin> arg_names_of (global_ops (progs ! 1)) \<longrightarrow>
             x \<in> set (vouts ! 0) \<and> x \<in> set (ins ! 2) \<and>
             x \<notin> set (ins ! 1) \<and> x \<notin> set (vouts ! 1)))"
proof (intro impI)
  assume a: "split_program p B = Inr (progs, ins, vouts)"
  note v = split_program_valid_outputs[OF a]
  have t: "length (global_ops p) = 10 \<and> B = [4, 7] \<longrightarrow>
        map (\<lambda>q. length (global_ops q)) progs = [4, 3, 3] \<and>
        (\<forall>x. x \<in> written_by (global_ops (progs ! 0)) \<and>
             first_use_is_read x (global_ops (progs ! 2)) \<and>
             x \<notin> arg_names_of (global_ops (progs ! 1)) \<longrightarrow>
             x \<in> set (vouts ! 0) \<and> x \<in> set (ins ! 2) \<and>
             x \<notin> set (ins ! 1) \<and> x \<notin> set (vouts ! 1))"
  proof (intro impI)
    assume h: "length (global_ops p) = 10 \<and> B = [4, 7]"
    then have N: "normalize_indices (int (length (global_ops p))) B = [0, 4, 7, 10]"
      by (simp add: normalize_indices_def)
    note o = split_program_ops[OF a N[symmetric]]
    have l: "length progs = 3" using o(1) by simp
    have g: "global_ops (progs ! 0) = drop (nat 0) (take (nat 4) (global_ops p))"
      "global_ops (progs ! 1) = drop (nat 4) (take (nat 7) (global_ops p))"
      "global_ops (progs ! 2) = drop (nat 7) (take (nat 10) (global_ops p))"
      using o(2)[of 0] o(2)[of 1] o(2)[of 2] by simp_all
    have m: "map (\<lambda>q. length (global_ops q)) progs = [4, 3, 3]"
    proof -
      from l obtain a b c where pr: "progs = [a, b, c]"
        by (auto simp: length_Suc_conv numeral_3_eq_3)
      have "length (global_ops a) = 4" "length (global_ops b) = 3" "length (global_ops c) = 3"
        using g h unfolding pr by simp_all
      then show ?thesis unfolding pr by simp
    qed
    have x: "\<forall>x. x \<in> written_by (global_ops (progs ! 0)) \<and>
             first_use_is_read x (global_ops (progs ! 2)) \<and>
             x \<notin> arg_names_of (global_ops (progs ! 1)) \<longrightarrow>
             x \<in> set (vouts ! 0) \<and> x \<in> set (ins ! 2) \<and>
             x \<notin> set (ins ! 1) \<and> x \<notin> set (vouts ! 1)"
    proof (intro allI impI)
      fix x
      assume hx: "x \<in> written_by (global_ops (progs ! 0)) \<and>
             first_use_is_read x (global_ops (progs ! 2)) \<and>
             x \<notin> arg_names_of (global_ops (progs ! 1))"
      have i2: "x \<in> set (ins ! 2)" using v(3)[of 2 x] l hx by simp
      have w1: "x \<notin> written_by (global_ops (progs ! 1))"
        using hx written_by_arg by blast
      have i1: "x \<notin> set (ins ! 1)"
        using v(3)[of 1 x] l hx first_use_is_read_arg by auto
      have nk: "\<forall>k. 0 < k \<and> k < 2 \<longrightarrow> x \<notin> written_by (global_ops (progs ! k))"
        using w1 by (auto simp: less_Suc_eq numeral_2_eq_2)
      have ex: "\<exists>j. 0 < j \<and> j < length progs \<and> x \<in> set (ins ! j) \<and>
                  (\<forall>k. 0 < k \<and> k < j \<longrightarrow> x \<notin> written_by (global_ops (progs ! k)))"
        using l i2 nk by (intro exI[of _ 2]) simp
      have l0: "0 < length progs - 1" using l by simp
      have v0: "x \<in> set (vouts ! 0)"
        unfolding v(5)[OF l0] using hx ex by blast
      have v1: "x \<notin> set (vouts ! 1)"
        using v(5)[of 1 x] l w1 by simp
      show "x \<in> set (vouts ! 0) \<and> x \<in> set (ins ! 2) \<and>
             x \<notin> set (ins ! 1) \<and> x \<notin> set (vouts ! 1)"
        using i2 i1 v0 v1 by simp
    qed
    show "map (\<lambda>q. length (global_ops q)) progs = [4, 3, 3] \<and>
        (\<forall>x. x \<in> written_by (global_ops (progs ! 0)) \<and>
             first_use_is_read x (global_ops (progs ! 2)) \<and>
             x \<notin> arg_names_of (global_ops (progs ! 1)) \<longrightarrow>
             x \<in> set (vouts ! 0) \<and> x \<in> set (ins ! 2) \<and>
             x \<notin> set (ins ! 1) \<and> x \<notin> set (vouts ! 1))"
      using m x by simp
  qed
  have A: "\<forall>j x. j < length progs \<longrightarrow>
        (x \<in> set (ins ! j) \<longleftrightarrow> first_use_is_read x (global_ops (progs ! j)))"
    using v(3) by blast
  have Bq: "\<forall>i x. i < length progs - 1 \<longrightarrow>
        (x \<in> set (vouts ! i) \<longleftrightarrow>
           x \<in> written_by (global_ops (progs ! i)) \<and>
           (\<exists>j. i < j \<and> j < length progs \<and> x \<in> set (ins ! j) \<and>
                (\<forall>k. i < k \<and> k < j \<longrightarrow> x \<notin> written_by (global_ops (progs ! k)))))"
    using v(5) by blast
  show "length ins = length progs \<and> length vouts = length progs \<and>
     (\<forall>j x. j < length progs \<longrightarrow>
        (x \<in> set (ins ! j) \<longleftrightarrow> first_use_is_read x (global_ops (progs ! j)))) \<and>
     (\<forall>i x. i < length progs - 1 \<longrightarrow>
        (x \<in> set (vouts ! i) \<longleftrightarrow>
           x \<in> written_by (global_ops (progs ! i)) \<and>
           (\<exists>j. i < j \<and> j < length progs \<and> x \<in> set (ins ! j) \<and>
                (\<forall>k. i < k \<and> k < j \<longrightarrow> x \<notin> written_by (global_ops (progs ! k)))))) \<and>
     (length (global_ops p) = 10 \<and> B = [4, 7] \<longrightarrow>
        map (\<lambda>q. length (global_ops q)) progs = [4, 3, 3] \<and>
        (\<forall>x. x \<in> written_by (global_ops (progs ! 0)) \<and>
             first_use_is_read x (global_ops (progs ! 2)) \<and>
             x \<notin> arg_names_of (global_ops (progs ! 1)) \<longrightarrow>
             x \<in> set (vouts ! 0) \<and> x \<in> set (ins ! 2) \<and>
             x \<notin> set (ins ! 1) \<and> x \<notin> set (vouts ! 1)))"
    by (rule conjI[OF v(1) conjI[OF v(2) conjI[OF A conjI[OF Bq t]]]])
qed

lemma ex_split_10:
  "map_sum id snd (split_program ex_prog_10 [4, 7]) =
     Inr ([[''in0''], [''y''], [''y'', ''z'']],
          [[''y'', ''z''], [''y''], [''x'', ''t8'', ''t9'']])"
  by code_simp

text \<open>
  The claim as stated fails on a program of 10 operators split at [4, 7]. Sub-program 0
  writes \<open>x\<close>, sub-program 2 reads \<open>x\<close> (after writing it itself) and sub-program 1 does
  not touch \<open>x\<close>, yet \<open>x\<close> is neither a valid output of sub-program 0 nor an input of
  sub-program 2. And \<open>y\<close> is a valid output of sub-program 1, but with \<open>y\<close> removed from
  that list every input of the later sub-program 2 is still among the valid outputs of
  the earlier sub-program 0.
\<close>

theorem C4_counterexample:
  "global_ops ex_prog_10 = ex_ops_10 \<and>
   map_sum id snd (split_program ex_prog_10 [4, 7]) =
     Inr ([[''in0''], [''y''], [''y'', ''z'']],
          [[''y'', ''z''], [''y''], [''x'', ''t8'', ''t9'']]) \<and>
   ''x'' \<in> written_by (take 4 ex_ops_10) \<and>
   ''x'' \<in> set (input_arg_names (ex_ops_10 ! 8)) \<and>
   ''x'' \<notin> arg_names_of (take 3 (drop 4 ex_ops_10)) \<and>
   ''x'' \<notin> set ([[''y'', ''z''], [''y''], [''x'', ''t8'', ''t9'']] ! 0) \<and>
   ''x'' \<notin> set ([[''in0''], [''y''], [''y'', ''z'']] ! 2) \<and>
   ''y'' \<in> set ([[''y'', ''z''], [''y''], [''x'', ''t8'', ''t9'']] ! 1) \<and>
   set ([[''in0''], [''y''], [''y'', ''z'']] ! 2) \<subseteq>
     set ([[''y'', ''z''], removeAll ''y'' [''y''], [''x'', ''t8'', ''t9'']] ! 0)"
proof -
  have 1: "global_ops ex_prog_10 = ex_ops_10"
    by (simp add: global_ops_def ex_prog_10_def ex_block_def)
  have 2: "''x'' \<in> written_by (take 4 ex_ops_10)"
    by (simp add: written_by_def ex_ops_10_def ex_op_def output_arg_names_def)
  have 3: "''x'' \<in> set (input_arg_names (ex_ops_10 ! 8))"
    by (simp add: ex_ops_10_def ex_op_def input_arg_names_def)
  have 4: "''x'' \<notin> arg_names_of (take 3 (drop 4 ex_ops_10))"
    by (simp add: arg_names_of_def ex_ops_10_def ex_op_def input_arg_names_def
        output_arg_names_def)
  show ?thesis using 1 2 3 4 ex_split_10 by simp
qed

theorem C4_valid_outputs_witness:
  "\<exists>progs. split_program ex_prog_10 [4, 7] =
       Inr (progs, [[''in0''], [''y''], [''y'', ''z'']],
            [[''y'', ''z''], [''y''], [''x'', ''t8'', ''t9'']]) \<and>
     map (\<lambda>q. length (global_ops q)) progs = [4, 3, 3] \<and>
     ''z'' \<in> written_by (global_ops (progs ! 0)) \<and>
     first_use_is_read ''z'' (global_ops (progs ! 2)) \<and>
     ''z'' \<notin> arg_names_of (global_ops (progs ! 1)) \<and>
     ''z'' \<in> set ([[''y'', ''z''], [''y''], [''x'', ''t8'', ''t9'']] ! 0) \<and>
     ''y'' \<in> written_by (global_ops (progs ! 1))"
proof -
  let ?ins = "[[''in0''], [''y''], [''y'', ''z'']]"
  let ?vouts = "[[''y'', ''z''], [''y''], [''x'', ''t8'', ''t9'']]"
  from ex_split_10 obtain progs where
    a: "split_program ex_prog_10 [4, 7] = Inr (progs, ?ins, ?vouts)"
    by (cases "split_program ex_prog_10 [4, 7]") auto
  have l10: "length (global_ops ex_prog_10) = 10 \<and> [4, 7] = [4, 7::int]"
    by (simp add: global_ops_def ex_prog_10_def ex_block_def ex_ops_10_def)
  note t = C4_valid_outputs[of ex_prog_10 "[4, 7]" progs ?ins ?vouts, rule_format, OF a]
  from t have len: "length ?vouts = length progs" by blast
  from t l10 have m: "map (\<lambda>q. length (global_ops q)) progs = [4, 3, 3]" by blast
  from t have B: "\<forall>i x. i < length progs - 1 \<longrightarrow>
        (x \<in> set (?vouts ! i) \<longleftrightarrow>
           x \<in> written_by (global_ops (progs ! i)) \<and>
           (\<exists>j. i < j \<and> j < length progs \<and> x \<in> set (?ins ! j) \<and>
                (\<forall>k. i < k \<and> k < j \<longrightarrow> x \<notin> written_by (global_ops (progs ! k)))))"
    by blast
  from t have A: "\<forall>j x. j < length progs \<longrightarrow>
        (x \<in> set (?ins ! j) \<longleftrightarrow> first_use_is_read x (global_ops (progs ! j)))" by blast
  have l3: "length progs = 3" using len by simp
  have z0: "''z'' \<in> written_by (global_ops (progs ! 0))"
    using B[rule_format, of 0 "''z''"] l3 by simp
  have y1: "''y'' \<in> written_by (global_ops (progs ! 1))"
    using B[rule_format, of 1 "''y''"] l3 by simp
  have z2: "first_use_is_read ''z'' (global_ops (progs ! 2))"
    using A[rule_format, of 2 "''z''"] l3 by simp
  have N: "[0, 4, 7, 10] = normalize_indices (int (length (global_ops ex_prog_10))) [4, 7]"
    using l10 by (simp add: normalize_indices_def)
  have g1: "global_ops (progs ! 1) = drop (nat 4) (take (nat 7) (global_ops ex_prog_10))"
    using split_program_ops(2)[OF a N, of 1] by simp
  have z1: "''z'' \<notin> arg_names_of (global_ops (progs ! 1))"
    unfolding g1
    by (simp add: global_ops_def ex_prog_10_def ex_block_def ex_ops_10_def arg_names_of_def
        ex_op_def input_arg_names_def output_arg_names_def)
  from t l10 z0 z2 z1 have "''z'' \<in> set (?vouts ! 0) \<and> ''z'' \<in> set (?ins ! 2) \<and>
      ''z'' \<notin> set (?ins ! 1) \<and> ''z'' \<notin> set (?vouts ! 1)"
    by blast
  then show ?thesis using a m z0 z2 z1 y1 by (intro exI[of _ progs]) simp
qed

section \<open>Properties of the re-materializer\<close>




































text \<open>
  A first invocation raises on a destination that declares a referenced name with
  another shape.
\<close>

lemma create_program_conflict:
  "create_program ex_src_prog ex_src
     (ex_block [] [(''a'', (ex_var ''a'')\<lparr>var_shape := Some [5]\<rparr>)]) ex_src_op False =
     Inl (ValueError ''a'')"
  by (simp add: create_program_def create_var_def block_var_def
        has_var_def create_inter_def lod_level_def declare_var_def not_shape_var_type_def
        var_matches_def agrees_def
        ex_src_def ex_block_def ex_src_op_def ex_op_def ex_var_def
        input_arg_names_def output_arg_names_def)






section \<open>Properties of the stream assignment\<close>

lemma for_each_Inr:
  "for_each f xs = Inr ys \<Longrightarrow> list_all2 (\<lambda>x y. f x = Inr y) xs ys"
  by (induction xs arbitrary: ys) (auto split: sum.splits)

lemma for_each_returns:
  "(\<exists>ys. for_each f xs = Inr ys) \<longleftrightarrow> (\<forall>x \<in> set xs. \<exists>y. f x = Inr y)"
  by (induction xs) (auto split: sum.splits)

lemma digit_code:
  assumes "n < 10"
  shows "of_char (digit n) = (48 + n :: nat)"
proof -
  have "n = 9 \<or> n = 8 \<or> n = 7 \<or> n = 6 \<or> n = 5 \<or>
        n = 4 \<or> n = 3 \<or> n = 2 \<or> n = 1 \<or> n = 0"
    using assms by presburger
  then show ?thesis by (elim disjE) (simp_all add: digit_def)
qed

lemma digit_inj:
  assumes n: "n < 10" and m: "m < 10" and e: "digit n = digit m"
  shows "n = m"
proof -
  have "(48 + n :: nat) = of_char (digit n)" by (rule digit_code[OF n, symmetric])
  also have "\<dots> = of_char (digit m)" by (simp only: e)
  also have "\<dots> = 48 + m" by (rule digit_code[OF m])
  finally show ?thesis by simp
qed

lemma digit_not_minus:
  assumes n: "n < 10"
  shows "digit n \<noteq> CHR ''-''"
proof
  assume e: "digit n = CHR ''-''"
  have "of_char (digit n) = (45 :: nat)" unfolding e by simp
  then have "48 + n = 45" unfolding digit_code[OF n] .
  then show False by simp
qed

lemma str_nat_nonempty: "str_nat n \<noteq> []"
  by (subst str_nat.simps) simp

lemma str_nat_inj: "str_nat n = str_nat m \<Longrightarrow> n = m"
proof (induction n arbitrary: m rule: str_nat.induct)
  case (1 n)
  show ?case
  proof (cases "n < 10")
    case True
    note n = this
    show ?thesis
    proof (cases "m < 10")
      case True
      then show ?thesis using n "1.prems" digit_inj[of n m]
        by (simp add: str_nat.simps[of n] str_nat.simps[of m])
    next
      case False
      then have l: "length (str_nat m) \<ge> 2"
        using str_nat_nonempty[of "m div 10"]
        by (cases "str_nat (m div 10)") (simp_all add: str_nat.simps[of m])
      have "length (str_nat n) = 1" using n by (simp add: str_nat.simps[of n])
      then have "length (str_nat m) = 1" unfolding "1.prems" .
      then show ?thesis using l by simp
    qed
  next
    case False
    note n = this
    show ?thesis
    proof (cases "m < 10")
      case True
      have l: "length (str_nat n) \<ge> 2"
        using str_nat_nonempty[of "n div 10"] n
        by (cases "str_nat (n div 10)") (simp_all add: str_nat.simps[of n])
      have "length (str_nat m) = 1" using True by (simp add: str_nat.simps[of m])
      then have "length (str_nat n) = 1" unfolding "1.prems" .
      then show ?thesis using l by simp
    next
      case False
      have e: "str_nat (n div 10) = str_nat (m div 10)" "digit (n mod 10) = digit (m mod 10)"
        using n False "1.prems" by (simp_all add: str_nat.simps[of n] str_nat.simps[of m])
      have a: "n div 10 = m div 10" using "1.IH"[OF n e(1)] .
      have b: "n mod 10 = m mod 10" using digit_inj[OF _ _ e(2)] by simp
      show ?thesis using a b by (metis div_mult_mod_eq)
    qed
  qed
qed

lemma str_nat_hd: "hd (str_nat n) \<noteq> CHR ''-''"
proof (induction n rule: str_nat.induct)
  case (1 n)
  show ?case
  proof (cases "n < 10")
    case True
    then show ?thesis using digit_not_minus[of n] by (simp add: str_nat.simps[of n])
  next
    case False
    then show ?thesis using "1.IH" str_nat_nonempty[of "n div 10"]
      by (simp add: str_nat.simps[of n])
  qed
qed

lemma str_int_inj: "str_int i = str_int j \<Longrightarrow> i = j"
proof -
  assume a: "str_int i = str_int j"
  have h: "CHR ''-'' # xs \<noteq> str_nat n" for xs n
    using str_nat_hd[of n] by (cases "str_nat n") auto
  show ?thesis
  proof (cases "i < 0")
    case True
    note i = this
    show ?thesis
    proof (cases "j < 0")
      case True
      then have "str_nat (nat (- i)) = str_nat (nat (- j))" using a i by (simp add: str_int_def)
      from str_nat_inj[OF this] show ?thesis using i True by simp
    next
      case False
      then show ?thesis using a i h by (simp add: str_int_def)
    qed
  next
    case False
    note i = this
    show ?thesis
    proof (cases "j < 0")
      case True
      then show ?thesis using a i h[symmetric] by (simp add: str_int_def) 
    next
      case False
      then have "str_nat (nat i) = str_nat (nat j)" using a i by (simp add: str_int_def)
      from str_nat_inj[OF this] show ?thesis using i False by simp
    qed
  qed
qed

lemma list_all2_map_eq:
  "list_all2 R xs ys \<Longrightarrow> (\<And>x y. R x y \<Longrightarrow> f y = f x) \<Longrightarrow> map f ys = map f xs"
  by (induction rule: list_all2_induct) auto

lemma overlap_op_type: "overlap_op op = Inr op' \<Longrightarrow> op_type op' = op_type op"
  by (auto simp: overlap_op_def set_attr_def op_attr_def Let_def split: if_splits option.splits)

lemma overlap_op_props:
  assumes "overlap_op op = Inr op'"
  shows "(op_type op = ''send_v2'' \<longrightarrow>
           (\<exists>r. map_of (op_attrs op) ''ring_id'' = Some r \<and>
                execution_stream (op_dist_attr op') = ''send_stream_'' @ py_str r) \<and>
           map_of (op_attrs op') ''use_calc_stream'' = Some (ABool True) \<and>
           map_of (op_attrs op') ''dynamic_shape'' = Some (ABool False)) \<and>
         (op_type op = ''recv_v2'' \<longrightarrow>
           execution_stream (op_dist_attr op') = ''recv_stream'' \<and>
           map_of (op_attrs op') ''use_calc_stream'' = Some (ABool True) \<and>
           map_of (op_attrs op') ''dynamic_shape'' = Some (ABool False)) \<and>
         (op_type op \<noteq> ''send_v2'' \<and> op_type op \<noteq> ''recv_v2'' \<longrightarrow> op' = op) \<and>
         op_inputs op' = op_inputs op \<and> op_outputs op' = op_outputs op"
  using assms
  by (auto simp: overlap_op_def set_attr_def op_attr_def Let_def update_conv'
           split: if_splits option.splits)

lemma overlap_block_D:
  assumes "overlap_block b = Inr c"
  shows "list_all2 (\<lambda>op op'. overlap_op op = Inr op') (blk_ops b) (blk_ops c)"
  using assms
  by (auto simp: overlap_block_def split: sum.splits dest: for_each_Inr)

lemma overlap_block_types:
  assumes "overlap_block b = Inr c"
  shows "(map op_type \<circ> blk_ops) c = (map op_type \<circ> blk_ops) b"
  using list_all2_map_eq[OF overlap_block_D[OF assms], of op_type] overlap_op_type by simp

lemma overlap_send_recv_D:
  assumes "overlap_send_recv p = Inr q"
  shows "list_all2 (\<lambda>b c. overlap_block b = Inr c) (blocks p) (blocks q)"
proof -
  from assms obtain bs where
    bs: "for_each overlap_block (blocks p) = Inr bs" and
    q: "q = p\<lparr>global_block := hd bs, sub_blocks := tl bs\<rparr>"
    by (auto simp: overlap_send_recv_def split: sum.splits)
  have l: "list_all2 (\<lambda>b c. overlap_block b = Inr c) (blocks p) bs"
    by (rule for_each_Inr[OF bs])
  then have "length bs = length (blocks p)" by (simp add: list_all2_lengthD)
  then have "bs \<noteq> []" by (auto simp: blocks_def)
  then have "blocks q = bs" unfolding q by (simp add: blocks_def)
  then show ?thesis using l by simp
qed

lemma overlap_op_returns:
  "(\<exists>op'. overlap_op op = Inr op') \<longleftrightarrow>
     (op_type op = ''send_v2'' \<longrightarrow> map_of (op_attrs op) ''ring_id'' \<noteq> None)"
  by (auto simp: overlap_op_def set_attr_def op_attr_def Let_def update_conv'
           split: if_splits option.splits)

lemma overlap_block_returns:
  "(\<exists>c. overlap_block b = Inr c) \<longleftrightarrow>
     (\<forall>op \<in> set (blk_ops b). op_type op = ''send_v2'' \<longrightarrow>
         map_of (op_attrs op) ''ring_id'' \<noteq> None)"
proof -
  have "(\<exists>c. overlap_block b = Inr c) \<longleftrightarrow> (\<exists>ops. for_each overlap_op (blk_ops b) = Inr ops)"
    by (auto simp: overlap_block_def split: sum.splits)
  then show ?thesis unfolding for_each_returns overlap_op_returns .
qed

lemma overlap_send_recv_returns:
  "(\<exists>q. overlap_send_recv p = Inr q) \<longleftrightarrow>
     (\<forall>b \<in> set (blocks p). \<forall>op \<in> set (blk_ops b). op_type op = ''send_v2'' \<longrightarrow>
         map_of (op_attrs op) ''ring_id'' \<noteq> None)"
proof -
  have "(\<exists>q. overlap_send_recv p = Inr q) \<longleftrightarrow>
          (\<exists>bs. for_each overlap_block (blocks p) = Inr bs)"
    by (auto simp: overlap_send_recv_def split: sum.splits)
  then show ?thesis unfolding for_each_returns overlap_block_returns .
qed

lemma str_12: "str_int 12 = ''12''"
  by (simp add: str_int_def str_nat.simps[of 12] str_nat.simps[of 1]
        str_nat.simps[of "Suc 0"] digit_def)

lemma str_7: "str_int 7 = ''7''"
  by (simp add: str_int_def str_nat.simps[of 7] digit_def)

lemma ex_comm_returns: "\<exists>q. overlap_send_recv ex_prog_comm = Inr q"
  unfolding overlap_send_recv_returns
  by (simp add: ex_prog_comm_def blocks_def ex_block_def ex_send_def ex_recv_def ex_op_def)

lemma ex_comm_ops:
  "blocks ex_prog_comm = [global_block ex_prog_comm]"
  "blk_ops (global_block ex_prog_comm) =
      [ex_recv, ex_op ''scale'' [''b''] [''a''], ex_send 12, ex_send 7]"
  by (simp_all add: blocks_def ex_prog_comm_def ex_block_def)

lemma ex_comm_attrs:
  "op_type ex_recv = ''recv_v2''" "op_type (ex_send r) = ''send_v2''"
  "op_type (ex_op ''scale'' [''b''] [''a'']) = ''scale''"
  "map_of (op_attrs (ex_send r)) ''ring_id'' = Some (AInt r)"
  by (simp_all add: ex_recv_def ex_send_def ex_op_def)

text \<open>
  Claim C9. Let \<open>_overlap_send_recv\<close> return on a program. Every block keeps its
  sequence of operator types, so no operator is inserted or removed, and every operator
  keeps its inputs and outputs. A \<open>send_v2\<close> operator has a \<open>ring_id\<close> and gets the
  execution stream \<open>send_stream_\<close> followed by \<open>str\<close> of it, a \<open>recv_v2\<close> operator gets
  the execution stream \<open>recv_stream\<close>, both get \<open>use_calc_stream\<close> true and
  \<open>dynamic_shape\<close> false, and every other operator is left as it is. The stream names
  of two integer ring ids are the same only for the same ring.
\<close>

theorem C9_overlap_send_recv:
  assumes "overlap_send_recv p = Inr q"
  shows "map (map op_type \<circ> blk_ops) (blocks q) = map (map op_type \<circ> blk_ops) (blocks p) \<and>
    (\<forall>i j. i < length (blocks p) \<and> j < length (blk_ops (blocks p ! i)) \<longrightarrow>
       (let op = blk_ops (blocks p ! i) ! j; op' = blk_ops (blocks q ! i) ! j in
         (op_type op = ''send_v2'' \<longrightarrow>
           (\<exists>r. map_of (op_attrs op) ''ring_id'' = Some r \<and>
                execution_stream (op_dist_attr op') = ''send_stream_'' @ py_str r) \<and>
           map_of (op_attrs op') ''use_calc_stream'' = Some (ABool True) \<and>
           map_of (op_attrs op') ''dynamic_shape'' = Some (ABool False)) \<and>
         (op_type op = ''recv_v2'' \<longrightarrow>
           execution_stream (op_dist_attr op') = ''recv_stream'' \<and>
           map_of (op_attrs op') ''use_calc_stream'' = Some (ABool True) \<and>
           map_of (op_attrs op') ''dynamic_shape'' = Some (ABool False)) \<and>
         (op_type op \<noteq> ''send_v2'' \<and> op_type op \<noteq> ''recv_v2'' \<longrightarrow> op' = op) \<and>
         op_inputs op' = op_inputs op \<and> op_outputs op' = op_outputs op)) \<and>
    (\<forall>r r'. ''send_stream_'' @ py_str (AInt r) = ''send_stream_'' @ py_str (AInt r')
         \<longrightarrow> r = r')"
proof -
  note l = overlap_send_recv_D[OF assms]
  have t: "map (map op_type \<circ> blk_ops) (blocks q) = map (map op_type \<circ> blk_ops) (blocks p)"
    by (rule list_all2_map_eq[OF l]) (rule overlap_block_types)
  have o: "\<forall>i j. i < length (blocks p) \<and> j < length (blk_ops (blocks p ! i)) \<longrightarrow>
       (let op = blk_ops (blocks p ! i) ! j; op' = blk_ops (blocks q ! i) ! j in
         (op_type op = ''send_v2'' \<longrightarrow>
           (\<exists>r. map_of (op_attrs op) ''ring_id'' = Some r \<and>
                execution_stream (op_dist_attr op') = ''send_stream_'' @ py_str r) \<and>
           map_of (op_attrs op') ''use_calc_stream'' = Some (ABool True) \<and>
           map_of (op_attrs op') ''dynamic_shape'' = Some (ABool False)) \<and>
         (op_type op = ''recv_v2'' \<longrightarrow>
           execution_stream (op_dist_attr op') = ''recv_stream'' \<and>
           map_of (op_attrs op') ''use_calc_stream'' = Some (ABool True) \<and>
           map_of (op_attrs op') ''dynamic_shape'' = Some (ABool False)) \<and>
         (op_type op \<noteq> ''send_v2'' \<and> op_type op \<noteq> ''recv_v2'' \<longrightarrow> op' = op) \<and>
         op_inputs op' = op_inputs op \<and> op_outputs op' = op_outputs op)"
  proof (intro allI impI)
    fix i j assume a: "i < length (blocks p) \<and> j < length (blk_ops (blocks p ! i))"
    have bi: "overlap_block (blocks p ! i) = Inr (blocks q ! i)"
      using list_all2_nthD[OF l, of i] a by simp
    have "overlap_op (blk_ops (blocks p ! i) ! j) = Inr (blk_ops (blocks q ! i) ! j)"
      using list_all2_nthD[OF overlap_block_D[OF bi], of j] a by simp
    from overlap_op_props[OF this]
    show "let op = blk_ops (blocks p ! i) ! j; op' = blk_ops (blocks q ! i) ! j in
         (op_type op = ''send_v2'' \<longrightarrow>
           (\<exists>r. map_of (op_attrs op) ''ring_id'' = Some r \<and>
                execution_stream (op_dist_attr op') = ''send_stream_'' @ py_str r) \<and>
           map_of (op_attrs op') ''use_calc_stream'' = Some (ABool True) \<and>
           map_of (op_attrs op') ''dynamic_shape'' = Some (ABool False)) \<and>
         (op_type op = ''recv_v2'' \<longrightarrow>
           execution_stream (op_dist_attr op') = ''recv_stream'' \<and>
           map_of (op_attrs op') ''use_calc_stream'' = Some (ABool True) \<and>
           map_of (op_attrs op') ''dynamic_shape'' = Some (ABool False)) \<and>
         (op_type op \<noteq> ''send_v2'' \<and> op_type op \<noteq> ''recv_v2'' \<longrightarrow> op' = op) \<and>
         op_inputs op' = op_inputs op \<and> op_outputs op' = op_outputs op"
      unfolding Let_def .
  qed
  have d: "\<forall>r r'. ''send_stream_'' @ py_str (AInt r) = ''send_stream_'' @ py_str (AInt r')
         \<longrightarrow> r = r'"
    using str_int_inj by simp
  show ?thesis by (rule conjI[OF t conjI[OF o d]])
qed

theorem C9_overlap_send_recv_witness:
  "\<exists>q. overlap_send_recv ex_prog_comm = Inr q \<and>
     map op_type (blk_ops (global_block q)) = [''recv_v2'', ''scale'', ''send_v2'', ''send_v2''] \<and>
     execution_stream (op_dist_attr (blk_ops (global_block q) ! 0)) = ''recv_stream'' \<and>
     blk_ops (global_block q) ! 1 = ex_op ''scale'' [''b''] [''a''] \<and>
     execution_stream (op_dist_attr (blk_ops (global_block q) ! 2)) = ''send_stream_12'' \<and>
     execution_stream (op_dist_attr (blk_ops (global_block q) ! 3)) = ''send_stream_7'' \<and>
     map_of (op_attrs (blk_ops (global_block q) ! 3)) ''use_calc_stream'' = Some (ABool True)"
proof -
  from ex_comm_returns obtain q where q: "overlap_send_recv ex_prog_comm = Inr q" ..
  note c = C9_overlap_send_recv[OF q]
  have bq: "blocks q ! 0 = global_block q" by (simp add: blocks_def)
  have t: "map op_type (blk_ops (global_block q)) =
      [''recv_v2'', ''scale'', ''send_v2'', ''send_v2'']"
    using c[THEN conjunct1]
    by (simp add: ex_comm_ops ex_comm_attrs blocks_def)
  have per: "j < 4 \<Longrightarrow>
       (let op = [ex_recv, ex_op ''scale'' [''b''] [''a''], ex_send 12, ex_send 7] ! j;
            op' = blk_ops (global_block q) ! j in
         (op_type op = ''send_v2'' \<longrightarrow>
           (\<exists>r. map_of (op_attrs op) ''ring_id'' = Some r \<and>
                execution_stream (op_dist_attr op') = ''send_stream_'' @ py_str r) \<and>
           map_of (op_attrs op') ''use_calc_stream'' = Some (ABool True) \<and>
           map_of (op_attrs op') ''dynamic_shape'' = Some (ABool False)) \<and>
         (op_type op = ''recv_v2'' \<longrightarrow>
           execution_stream (op_dist_attr op') = ''recv_stream'' \<and>
           map_of (op_attrs op') ''use_calc_stream'' = Some (ABool True) \<and>
           map_of (op_attrs op') ''dynamic_shape'' = Some (ABool False)) \<and>
         (op_type op \<noteq> ''send_v2'' \<and> op_type op \<noteq> ''recv_v2'' \<longrightarrow> op' = op) \<and>
         op_inputs op' = op_inputs op \<and> op_outputs op' = op_outputs op)" for j
    using c[THEN conjunct2, THEN conjunct1, rule_format, of 0 j]
    unfolding bq by (simp add: ex_comm_ops)
  have p0: "execution_stream (op_dist_attr (blk_ops (global_block q) ! 0)) = ''recv_stream''"
    using per[of 0] by (simp add: Let_def ex_comm_attrs)
  have p1: "blk_ops (global_block q) ! 1 = ex_op ''scale'' [''b''] [''a'']"
    using per[of 1] by (simp add: Let_def ex_comm_attrs)
  have p2: "execution_stream (op_dist_attr (blk_ops (global_block q) ! 2)) = ''send_stream_12''"
    using per[of 2] by (simp add: Let_def ex_comm_attrs str_12)
  have p3: "execution_stream (op_dist_attr (blk_ops (global_block q) ! 3)) = ''send_stream_7''"
    using per[of 3] by (simp add: Let_def ex_comm_attrs str_7)
  have p4: "map_of (op_attrs (blk_ops (global_block q) ! 3)) ''use_calc_stream'' = Some (ABool True)"
    using per[of 3] by (simp add: Let_def ex_comm_attrs)
  show ?thesis
    by (rule exI[of _ q]) (intro conjI q t p0 p1 p2 p3 p4)
qed

end
